theory Spec2Isabelle
  imports Complex_Main "HOL-Library.Product_Lexorder"
begin

section \<open>JavaScript values used by the scheduler\<close>

text \<open>
  The results of \<^verbatim>\<open>Number.parseFloat\<close> and \<^verbatim>\<open>Number.parseInt\<close> on a form field are
  either \<^verbatim>\<open>NaN\<close> (the field is not numeric) or a number. Finite numbers are modelled
  as exact rationals (IEEE rounding is not modelled); the literal \<^verbatim>\<open>Infinity\<close> is not
  in the model.
\<close>

datatype 'a parsed = NaN | Num 'a

text \<open>\<^verbatim>\<open>x || 0\<close>: \<^verbatim>\<open>NaN\<close> and \<^verbatim>\<open>0\<close> are falsy.\<close>

definition or_zero :: "rat parsed \<Rightarrow> rat" where
  "or_zero x = (case x of NaN \<Rightarrow> 0 | Num r \<Rightarrow> r)"

text \<open>
  A \<^verbatim>\<open>Date\<close> is its time value: integer milliseconds. \<^verbatim>\<open>new Date(number)\<close> drops the
  fraction of the number towards zero. Local time is taken without daylight-saving
  shifts, and a calendar date is represented by its day number, so that
  \<^verbatim>\<open>new Date(y, m - 1, d, h, min, s)\<close> is \<open>mkDate day h min s\<close>.
\<close>

definition newDate :: "rat \<Rightarrow> int" where
  "newDate x = (if 0 \<le> x then \<lfloor>x\<rfloor> else \<lceil>x\<rceil>)"

definition mkDate :: "int \<Rightarrow> nat \<Rightarrow> nat \<Rightarrow> nat \<Rightarrow> int" where
  "mkDate day h m s = day * 86400000 + int h * 3600000 + int m * 60000 + int s * 1000"

text \<open>\<^verbatim>\<open>validateNumber(value, min, max)\<close>; the argument is the result of \<^verbatim>\<open>parseInt\<close>.\<close>

definition validateNumber :: "int parsed \<Rightarrow> int \<Rightarrow> int \<Rightarrow> int" where
  "validateNumber v lo hi = (case v of NaN \<Rightarrow> lo | Num n \<Rightarrow> max lo (min hi n))"

section \<open>The form\<close>

text \<open>
  One \<^verbatim>\<open>.op-block\<close>: the parsed duration and pause fields, their unit selects, and the
  per-worker checkboxes (worker index, checked) in document order.
\<close>

record op_block =
  op_name :: string
  op_duration :: "rat parsed"
  op_unit :: string
  op_break_val :: "rat parsed"
  op_break_unit :: string
  op_workers :: "(nat \<times> bool) list"

text \<open>
  The global fields read by \<^verbatim>\<open>generateTable\<close>. An empty date or time field is \<open>None\<close>;
  a lunch field is \<open>None\<close> when it does not match the \<^verbatim>\<open>HH:MM\<close> pattern. \<open>z7Lines\<close>
  are the report lines built from the free-text fields; building them is not modelled.
\<close>

record form =
  startD :: "int option"
  startT :: "(nat \<times> nat \<times> nat) option"
  workerCountField :: "int parsed"
  timeMode :: string
  lunchStartInput :: "(nat \<times> nat) option"
  lunchStartInput2 :: "(nat \<times> nat) option"
  lunchDurField :: "rat parsed"
  chainMode :: bool
  ops :: "op_block list"
  z7Lines :: "string list"

section \<open>Duration resolver\<close>

definition dur :: "op_block \<Rightarrow> rat" where
  "dur b = max 0 (or_zero (op_duration b))"

definition unit_of :: "op_block \<Rightarrow> string" where
  "unit_of b = (if op_unit b \<noteq> ''min'' \<and> op_unit b \<noteq> ''hour'' then ''min'' else op_unit b)"

definition origDurationMs :: "op_block \<Rightarrow> rat" where
  "origDurationMs b = (if unit_of b = ''hour'' then dur b * 3600 * 1000 else dur b * 60 * 1000)"

definition durationMsForCalc :: "string \<Rightarrow> int \<Rightarrow> op_block \<Rightarrow> rat" where
  "durationMsForCalc tm wc b =
     (let d0 = origDurationMs b;
          d1 = (if tm = ''total'' \<and> wc > 1 then d0 / of_int wc else d0)
      in if tm = ''individual'' then 0 else d1)"

definition displayDurVal :: "string \<Rightarrow> int \<Rightarrow> op_block \<Rightarrow> rat" where
  "displayDurVal tm wc b = (if tm = ''total'' \<and> wc > 1 then dur b / of_int wc else dur b)"

definition opBreakVal :: "op_block \<Rightarrow> rat" where
  "opBreakVal b = max 0 (or_zero (op_break_val b))"

definition opBreakUnit :: "op_block \<Rightarrow> string" where
  "opBreakUnit b =
     (let u = (if op_break_unit b = [] then ''min'' else op_break_unit b)
      in if u \<noteq> ''min'' \<and> u \<noteq> ''hour'' then ''min'' else u)"

definition opBreakSec :: "op_block \<Rightarrow> rat" where
  "opBreakSec b = (if opBreakUnit b = ''hour'' then opBreakVal b * 3600 else opBreakVal b * 60)"

definition origOpBreakMs :: "op_block \<Rightarrow> int" where
  "origOpBreakMs b = \<lfloor>opBreakSec b * 1000\<rfloor>"

definition opBreakMsForCalc :: "string \<Rightarrow> op_block \<Rightarrow> int" where
  "opBreakMsForCalc tm b = (if tm = ''individual'' then 0 else origOpBreakMs b)"

section \<open>Lunch windows\<close>

text \<open>The three variables the lunch loop of \<^verbatim>\<open>generateTable\<close> updates.\<close>

record opstate =
  opStart :: int
  opEnd :: int
  crossedLunch :: bool

text \<open>
  The body of \<^verbatim>\<open>for (let l of lunches)\<close>: the two \<^verbatim>\<open>if\<close> statements in sequence, for
  the window \<open>(s, e)\<close>; \<open>d\<close> is \<^verbatim>\<open>durationMsForCalc\<close>.
\<close>

definition lunch_step :: "rat \<Rightarrow> int \<times> int \<Rightarrow> opstate \<Rightarrow> opstate" where
  "lunch_step d l st =
     (let st1 = (if opStart st \<ge> fst l \<and> opStart st < snd l
                 then \<lparr>opStart = snd l, opEnd = newDate (of_int (snd l) + d), crossedLunch = True\<rparr>
                 else st);
          st2 = (if opStart st1 < fst l \<and> opEnd st1 > fst l
                 then st1\<lparr>opEnd := opEnd st1 + (snd l - fst l), crossedLunch := True\<rparr>
                 else st1)
      in st2)"

text \<open>\<^verbatim>\<open>[l1, l2].sort((a, b) => a.s - b.s)\<close>: the stable sort of two windows by start.\<close>

definition sort_lunches :: "int \<times> int \<Rightarrow> int \<times> int \<Rightarrow> (int \<times> int) list" where
  "sort_lunches l1 l2 = (if fst l2 < fst l1 then [l2, l1] else [l1, l2])"

definition apply_lunches :: "rat \<Rightarrow> (int \<times> int) list \<Rightarrow> opstate \<Rightarrow> opstate" where
  "apply_lunches d ls st = fold (lunch_step d) ls st"

section \<open>Timeline scheduler\<close>

text \<open>The run configuration computed before the loop over the operations.\<close>

record config =
  c_workerCount :: int
  c_timeMode :: string
  c_lunch1 :: "int \<times> int"
  c_lunch2 :: "int \<times> int"

text \<open>The fields of a pushed row that the schedule and the export formulas use.\<close>

record row =
  opNumeric :: nat
  workerIndex :: nat
  r_name :: string
  durVal :: rat
  startObj :: int
  endObj :: int
  r_crossedLunch :: bool
  pauseExcelVal :: rat
  r_unit :: string

text \<open>Start, end and lunch flag of one operation, from the clock \<open>g\<close> before its pause.\<close>

definition schedule_op :: "config \<Rightarrow> int \<Rightarrow> op_block \<Rightarrow> opstate" where
  "schedule_op c g b =
     (let g1 = g + opBreakMsForCalc (c_timeMode c) b;
          d = durationMsForCalc (c_timeMode c) (c_workerCount c) b
      in apply_lunches d (sort_lunches (c_lunch1 c) (c_lunch2 c))
           \<lparr>opStart = g1, opEnd = newDate (of_int g1 + d), crossedLunch = False\<rparr>)"

text \<open>
  \<^verbatim>\<open>if (cb && !cb.checked) continue\<close>: a worker is skipped when the first checkbox of the
  block with that worker index exists and is unchecked.
\<close>

definition skipped :: "op_block \<Rightarrow> nat \<Rightarrow> bool" where
  "skipped b w = (case map_of (op_workers b) w of Some False \<Rightarrow> True | _ \<Rightarrow> False)"

definition mk_row :: "config \<Rightarrow> nat \<Rightarrow> op_block \<Rightarrow> opstate \<Rightarrow> nat \<Rightarrow> row" where
  "mk_row c opIndex b st w =
     \<lparr>opNumeric = opIndex + 1, workerIndex = w, r_name = op_name b,
      durVal = displayDurVal (c_timeMode c) (c_workerCount c) b,
      startObj = opStart st, endObj = opEnd st, r_crossedLunch = crossedLunch st,
      pauseExcelVal = opBreakSec b / 86400, r_unit = unit_of b\<rparr>"

text \<open>\<^verbatim>\<open>for (let w = 1; w <= workerCount; w++)\<close>.\<close>

definition op_rows :: "config \<Rightarrow> nat \<Rightarrow> op_block \<Rightarrow> opstate \<Rightarrow> row list" where
  "op_rows c opIndex b st =
     map (mk_row c opIndex b st)
       (filter (\<lambda>w. \<not> skipped b w) [1 ..< Suc (nat (c_workerCount c))])"

text \<open>
  \<^verbatim>\<open>ops.forEach((block, opIndex) => ...)\<close>: returns the rows pushed to \<^verbatim>\<open>dataMain\<close>, the
  state of every operation in order, and the final \<^verbatim>\<open>globalTime\<close>.
\<close>

fun run_ops :: "config \<Rightarrow> nat \<Rightarrow> int \<Rightarrow> op_block list \<Rightarrow> row list \<times> opstate list \<times> int" where
  "run_ops c opIndex g [] = ([], [], g)"
| "run_ops c opIndex g (b # bs) =
     (let st = schedule_op c g b;
          (rs, sts, g') = run_ops c (Suc opIndex) (opEnd st) bs
      in (op_rows c opIndex b st @ rs, st # sts, g'))"

section \<open>One run of \<^verbatim>\<open>generateTable\<close>\<close>

text \<open>The two early returns of \<^verbatim>\<open>generateTable\<close>: the alert, and the silent one.\<close>

datatype abort = MissingStart | NoOperations

record lunch_config =
  l_h :: nat
  l_m :: nat
  l_h2 :: nat
  l_m2 :: nat
  l_dur :: rat

text \<open>The JSON of one history entry (\<^verbatim>\<open>addToHistoryTable\<close>).\<close>

record entry =
  e_rows :: "row list"
  e_z7 :: "string list"
  e_lunch :: lunch_config
  e_chain :: bool
  e_timeMode :: string

text \<open>
  The page: the form, the rows of the displayed table, and the history list, most recent
  entry first.
\<close>

record app =
  page_form :: form
  tableResult :: "row list"
  historyList :: "entry list"

definition lunchDurMin :: "form \<Rightarrow> rat" where
  "lunchDurMin f = max 0 (min 480 (or_zero (lunchDurField f)))"

definition lunch_hm :: "form \<Rightarrow> nat \<times> nat" where
  "lunch_hm f = (case lunchStartInput f of Some hm \<Rightarrow> hm | None \<Rightarrow> (12, 0))"

definition lunch2_hm :: "form \<Rightarrow> nat \<times> nat" where
  "lunch2_hm f = (case lunchStartInput2 f of Some hm \<Rightarrow> hm | None \<Rightarrow> (0, 0))"

definition lunchWindow :: "form \<Rightarrow> int \<Rightarrow> int \<times> int" where
  "lunchWindow f day =
     (let lunchStartTime = mkDate day (fst (lunch_hm f)) (snd (lunch_hm f)) 0
      in (lunchStartTime, newDate (of_int lunchStartTime + lunchDurMin f * 60000)))"

text \<open>
  The second window: when its start is before the start of the run, \<^verbatim>\<open>setDate\<close> moves
  it to the next day.
\<close>

definition lunch2Window :: "form \<Rightarrow> int \<Rightarrow> int \<Rightarrow> int \<times> int" where
  "lunch2Window f day globalTime =
     (let s0 = mkDate day (fst (lunch2_hm f)) (snd (lunch2_hm f)) 0;
          lunch2StartTime = (if s0 < globalTime then s0 + 86400000 else s0)
      in (lunch2StartTime, newDate (of_int lunch2StartTime + lunchDurMin f * 60000)))"

text \<open>\<^verbatim>\<open>lunchConfig\<close>, stored with the history entry.\<close>

definition lunchConfig :: "form \<Rightarrow> lunch_config" where
  "lunchConfig f = \<lparr>l_h = fst (lunch_hm f), l_m = snd (lunch_hm f),
     l_h2 = fst (lunch2_hm f), l_m2 = snd (lunch2_hm f), l_dur = lunchDurMin f\<rparr>"

definition mk_config :: "form \<Rightarrow> int \<Rightarrow> int \<Rightarrow> config" where
  "mk_config f day globalTime =
     \<lparr>c_workerCount = validateNumber (workerCountField f) 1 10,
      c_timeMode = timeMode f,
      c_lunch1 = lunchWindow f day,
      c_lunch2 = lunch2Window f day globalTime\<rparr>"

text \<open>
  What the chain block writes into the date and time fields: the day, and the hours,
  minutes and seconds of the clock (\<^verbatim>\<open>getHours\<close>, \<^verbatim>\<open>getMinutes\<close>, \<^verbatim>\<open>getSeconds\<close>).
\<close>

definition date_field :: "int \<Rightarrow> int" where
  "date_field t = t div 86400000"

definition time_field :: "int \<Rightarrow> nat \<times> nat \<times> nat" where
  "time_field t =
     (let ms = t mod 86400000
      in (nat (ms div 3600000), nat ((ms mod 3600000) div 60000), nat ((ms mod 60000) div 1000)))"

definition set_start :: "int \<Rightarrow> form \<Rightarrow> form" where
  "set_start t f = f\<lparr>startD := Some (date_field t), startT := Some (time_field t)\<rparr>"

text \<open>
  \<^verbatim>\<open>updateStartTimeFromHistory\<close>, called at the end of \<^verbatim>\<open>addToHistoryTable\<close>: in chain
  mode the fields are set from the end of the last row of the newest entry.
\<close>

definition updateStartTimeFromHistory :: "app \<Rightarrow> app" where
  "updateStartTimeFromHistory a =
     (if \<not> chainMode (page_form a) \<or> historyList a = [] then a
      else if e_rows (hd (historyList a)) = [] then a
      else a\<lparr>page_form := set_start (endObj (last (e_rows (hd (historyList a))))) (page_form a)\<rparr>)"

text \<open>
  \<^verbatim>\<open>generateTable\<close> as a state transformer of the page. The result says whether the
  run was abandoned, and gives the page after the call.
\<close>

definition generateTable :: "app \<Rightarrow> abort option \<times> app" where
  "generateTable a =
     (let a0 = a\<lparr>tableResult := []\<rparr>; f = page_form a in
      case startD f of None \<Rightarrow> (Some MissingStart, a0)
      | Some day \<Rightarrow>
     (case startT f of None \<Rightarrow> (Some MissingStart, a0)
      | Some (th, tm, ts) \<Rightarrow>
     (let globalTime = mkDate day th tm ts;
          c = mk_config f day globalTime
      in if ops f = [] then (Some NoOperations, a0)
         else
           (let (dataMain, sts, g') = run_ops c 0 globalTime (ops f);
                f1 = (if chainMode f then set_start g' f else f);
                e = \<lparr>e_rows = dataMain, e_z7 = z7Lines f, e_lunch = lunchConfig f,
                     e_chain = chainMode f, e_timeMode = timeMode f\<rparr>
            in (None, updateStartTimeFromHistory
                  (a0\<lparr>page_form := f1, tableResult := dataMain,
                      historyList := e # historyList a\<rparr>))))))"

text \<open>The start of the clock of a run, as \<^verbatim>\<open>generateTable\<close> reads it from the form.\<close>

definition run_start :: "form \<Rightarrow> int option" where
  "run_start f =
     (case startD f of None \<Rightarrow> None
      | Some day \<Rightarrow> (case startT f of None \<Rightarrow> None
                      | Some (th, tm, ts) \<Rightarrow> Some (mkDate day th tm ts)))"

text \<open>Both lunch windows end no earlier than they start.\<close>

definition wf_windows :: "config \<Rightarrow> bool" where
  "wf_windows c = (fst (c_lunch1 c) \<le> snd (c_lunch1 c) \<and> fst (c_lunch2 c) \<le> snd (c_lunch2 c))"

section \<open>Worker checkboxes\<close>

text \<open>
  \<^verbatim>\<open>querySelector('.op-worker-checkbox[data-worker="w"]')\<close> finds the first checkbox of
  the block for worker \<open>w\<close>; \<open>set_checked\<close> assigns its \<^verbatim>\<open>checked\<close> property and does
  nothing when there is none.
\<close>

fun set_checked :: "nat \<Rightarrow> bool \<Rightarrow> (nat \<times> bool) list \<Rightarrow> (nat \<times> bool) list" where
  "set_checked w v [] = []"
| "set_checked w v ((w', c) # cbs) =
     (if w' = w then (w', v) # cbs else (w', c) # set_checked w v cbs)"

definition set_worker :: "nat \<Rightarrow> bool \<Rightarrow> op_block \<Rightarrow> op_block" where
  "set_worker w v b = b\<lparr>op_workers := set_checked w v (op_workers b)\<rparr>"

text \<open>
  The user sets the checkbox of worker \<open>w\<close> on block \<open>k\<close> to \<open>v\<close>, and the \<^verbatim>\<open>change\<close>
  listener of that checkbox runs: when the box is now unchecked, the boxes of the same
  worker on all later blocks are unchecked.
\<close>

definition checkbox_change :: "nat \<Rightarrow> nat \<Rightarrow> bool \<Rightarrow> op_block list \<Rightarrow> op_block list" where
  "checkbox_change k w v blocks =
     (if k < length blocks
      then (let blocks1 = blocks[k := set_worker w v (blocks ! k)]
            in if \<not> v
               then take (Suc k) blocks1 @ map (set_worker w False) (drop (Suc k) blocks1)
               else blocks1)
      else blocks)"

section \<open>Export: order of the rows\<close>

text \<open>
  \<^verbatim>\<open>data.rows.slice().sort(...)\<close> in \<^verbatim>\<open>exportToExcel\<close>: a stable sort by
  \<^verbatim>\<open>opNumeric\<close>, then by \<^verbatim>\<open>workerIndex || 1\<close>.
\<close>

definition export_key :: "row \<Rightarrow> nat \<times> nat" where
  "export_key r = (opNumeric r, if workerIndex r = 0 then 1 else workerIndex r)"

definition rowsForExport :: "row list \<Rightarrow> row list" where
  "rowsForExport rows = sort_key export_key rows"

text \<open>Row \<open>a\<close> comes before row \<open>b\<close>: by operation, then by worker index.\<close>

definition row_before :: "row \<Rightarrow> row \<Rightarrow> bool" where
  "row_before a b =
     (opNumeric a < opNumeric b \<or> (opNumeric a = opNumeric b \<and> workerIndex a < workerIndex b))"

section \<open>Export: the emitted formulas\<close>

text \<open>
  The formula strings of \<^verbatim>\<open>exportToExcel\<close> as syntax trees: \<^verbatim>\<open>TIME(h,m,s)\<close>, a relative
  reference \<^verbatim>\<open>R[dr]C[dc]\<close>, the lookup
  \<^verbatim>\<open>INDEX(R{s}C14:R{e}C14, MATCH("op_worker", R{s}C15:R{e}C15, 0))\<close>, and the operators the
  templates use. The icon formula \<^verbatim>\<open>=IF(cond, icon, "")\<close> is represented by its condition.
\<close>

datatype xl =
    XNum rat
  | XTime rat rat rat
  | XRef int int
  | XIndexMatch nat nat "nat \<times> nat"
  | XAdd xl xl
  | XSub xl xl
  | XDiv xl rat
  | XAbs xl
  | XMod1 xl
  | XIf xb xl xl
and xb =
    XAnd xb xb
  | XOr xb xb
  | XLt xl xl
  | XGe xl xl
  | XGt xl xl

text \<open>
  Evaluation by hand, with the value of every referenced cell given by \<open>env\<close> (relative
  references) and \<open>lk\<close> (lookups). Times are fractions of a day. \<^verbatim>\<open>TIME\<close> drops the
  fractions of its arguments and wraps at 24 hours; \<^verbatim>\<open>MOD(x, 1)\<close> is the fractional part.
\<close>

fun eval :: "(int \<Rightarrow> int \<Rightarrow> rat) \<Rightarrow> (nat \<Rightarrow> nat \<Rightarrow> nat \<times> nat \<Rightarrow> rat) \<Rightarrow> xl \<Rightarrow> rat"
  and evalb :: "(int \<Rightarrow> int \<Rightarrow> rat) \<Rightarrow> (nat \<Rightarrow> nat \<Rightarrow> nat \<times> nat \<Rightarrow> rat) \<Rightarrow> xb \<Rightarrow> bool" where
  "eval env lk (XNum r) = r"
| "eval env lk (XTime h m s) =
     frac ((of_int \<lfloor>h\<rfloor> * 3600 + of_int \<lfloor>m\<rfloor> * 60 + of_int \<lfloor>s\<rfloor>) / 86400)"
| "eval env lk (XRef dr dc) = env dr dc"
| "eval env lk (XIndexMatch s e k) = lk s e k"
| "eval env lk (XAdd x y) = eval env lk x + eval env lk y"
| "eval env lk (XSub x y) = eval env lk x - eval env lk y"
| "eval env lk (XDiv x r) = eval env lk x / r"
| "eval env lk (XAbs x) = \<bar>eval env lk x\<bar>"
| "eval env lk (XMod1 x) = frac (eval env lk x)"
| "eval env lk (XIf c x y) = (if evalb env lk c then eval env lk x else eval env lk y)"
| "evalb env lk (XAnd a b) = (evalb env lk a \<and> evalb env lk b)"
| "evalb env lk (XOr a b) = (evalb env lk a \<or> evalb env lk b)"
| "evalb env lk (XLt x y) = (eval env lk x < eval env lk y)"
| "evalb env lk (XGe x y) = (eval env lk x \<ge> eval env lk y)"
| "evalb env lk (XGt x y) = (eval env lk x > eval env lk y)"

text \<open>The \<^verbatim>\<open>TIME\<close> literals that occur in a formula.\<close>

fun times_of :: "xl \<Rightarrow> (rat \<times> rat \<times> rat) list"
  and times_ofb :: "xb \<Rightarrow> (rat \<times> rat \<times> rat) list" where
  "times_of (XNum r) = []"
| "times_of (XTime h m s) = [(h, m, s)]"
| "times_of (XRef dr dc) = []"
| "times_of (XIndexMatch s e k) = []"
| "times_of (XAdd x y) = times_of x @ times_of y"
| "times_of (XSub x y) = times_of x @ times_of y"
| "times_of (XDiv x r) = times_of x"
| "times_of (XAbs x) = times_of x"
| "times_of (XMod1 x) = times_of x"
| "times_of (XIf c x y) = times_ofb c @ times_of x @ times_of y"
| "times_ofb (XAnd a b) = times_ofb a @ times_ofb b"
| "times_ofb (XOr a b) = times_ofb a @ times_ofb b"
| "times_ofb (XLt x y) = times_of x @ times_of y"
| "times_ofb (XGe x y) = times_of x @ times_of y"
| "times_ofb (XGt x y) = times_of x @ times_of y"

text \<open>
  The lunch values of an entry as the export reads them: \<^verbatim>\<open>data.lunch.h || 0\<close>,
  \<^verbatim>\<open>data.lunch.m || 0\<close>, \<^verbatim>\<open>h2\<close>, \<^verbatim>\<open>m2\<close>, and \<^verbatim>\<open>data.lunch.dur || 60\<close>.
\<close>

definition ld_of :: "lunch_config \<Rightarrow> rat" where
  "ld_of lc = (if l_dur lc = 0 then 60 else l_dur lc)"

definition l1Val :: "lunch_config \<Rightarrow> xl" where
  "l1Val lc = XTime (of_nat (l_h lc)) (of_nat (l_m lc)) 0"

definition l1End :: "lunch_config \<Rightarrow> xl" where
  "l1End lc = XAdd (XTime (of_nat (l_h lc)) (of_nat (l_m lc)) 0) (XTime 0 (ld_of lc) 0)"

definition lDurVal :: "lunch_config \<Rightarrow> xl" where
  "lDurVal lc = XTime 0 (ld_of lc) 0"

definition hasLunch2 :: "lunch_config \<Rightarrow> bool" where
  "hasLunch2 lc = (\<not> (l_h2 lc = 0 \<and> l_m2 lc = 0))"

definition l2Val :: "lunch_config \<Rightarrow> xl" where
  "l2Val lc = XTime (of_nat (l_h2 lc)) (of_nat (l_m2 lc)) 0"

definition l2End :: "lunch_config \<Rightarrow> xl" where
  "l2End lc = XAdd (XTime (of_nat (l_h2 lc)) (of_nat (l_m2 lc)) 0) (XTime 0 (ld_of lc) 0)"

text \<open>
  The start-time formula for a raw time \<open>raw\<close> (\<^verbatim>\<open>chainFormula\<close>, \<^verbatim>\<open>startFormula\<close>): the
  same template is written out at each of the four places that emit it.
\<close>

definition lunchShiftFormula :: "lunch_config \<Rightarrow> xl \<Rightarrow> xl" where
  "lunchShiftFormula lc raw =
     (let startShiftCond1 = XAnd (XGe raw (l1Val lc)) (XLt raw (l1End lc))
      in if hasLunch2 lc
         then (let shifted1 = XIf startShiftCond1 (l1End lc) raw;
                   startShiftCond2 = XAnd (XGe shifted1 (l2Val lc)) (XLt shifted1 (l2End lc))
               in XMod1 (XIf startShiftCond2 (l2End lc) shifted1))
         else XMod1 (XIf startShiftCond1 (l1End lc) raw))"

text \<open>The start-time cell: an editable value, or a locked formula.\<close>

datatype start_cell = Editable | Locked xl

text \<open>
  The start-time cell of row \<open>idx\<close> of an entry; \<open>prev\<close> is \<^verbatim>\<open>previousEntryData\<close>, \<open>rows\<close>
  is \<^verbatim>\<open>rowsForExport\<close>. From the start-time column, \<^verbatim>\<open>C[2]\<close> is the end time and
  \<^verbatim>\<open>C[-6]\<close> the pause.
\<close>

definition startTimeCell ::
    "entry \<Rightarrow> entry option \<Rightarrow> nat \<Rightarrow> nat \<Rightarrow> row list \<Rightarrow> nat \<Rightarrow> start_cell" where
  "startTimeCell data prev dataStartRow dataEndRow rows idx =
     (let r = rows ! idx;
          lc = e_lunch data;
          curOpNum = opNumeric r;
          prevRowOpNum = (if idx > 0 then int (opNumeric (rows ! (idx - 1))) else - 1);
          previousRow = lunchShiftFormula lc (XAdd (XRef (- 1) 2) (XRef 0 (- 6)))
      in if idx = 0
         then (case prev of
                 None \<Rightarrow> Editable
               | Some previousEntryData \<Rightarrow>
                   if e_chain data
                   then Locked (lunchShiftFormula lc
                          (XAdd (XRef (- (5 + 2 * int (length (e_z7 previousEntryData)))) 2)
                                (XRef 0 (- 6))))
                   else Editable)
         else if e_timeMode data = ''individual''
         then (if curOpNum > 1
               then Locked (lunchShiftFormula lc
                      (XAdd (XIndexMatch dataStartRow dataEndRow
                               (curOpNum - 1, if workerIndex r = 0 then 1 else workerIndex r))
                            (XRef 0 (- 6))))
               else if int curOpNum = prevRowOpNum then Locked (XRef (- 1) 0)
               else Locked previousRow)
         else if int curOpNum = prevRowOpNum then Locked (XRef (- 1) 0)
         else Locked previousRow)"

definition unitDiv :: "string \<Rightarrow> rat" where
  "unitDiv u = (if u = ''hour'' then 24 else 1440)"

text \<open>The icon formula; from the icon column, \<^verbatim>\<open>RC[7]\<close> is the start and \<^verbatim>\<open>RC[2]\<close> the duration.\<close>

definition formulaIcon :: "lunch_config \<Rightarrow> string \<Rightarrow> xb" where
  "formulaIcon lc u =
     (let icRawEnd = XAdd (XRef 0 7) (XDiv (XRef 0 2) (unitDiv u));
          icWasShifted1 = XLt (XAbs (XSub (XRef 0 7) (l1End lc))) (XTime 0 0 1);
          icCovers1 = XAnd (XLt (XRef 0 7) (l1Val lc))
                           (XGt icRawEnd (XAdd (l1Val lc) (XTime 0 0 1)));
          icC1 = XOr icWasShifted1 icCovers1;
          icShift1 = XIf icC1 (lDurVal lc) (XNum 0)
      in if hasLunch2 lc
         then (let shiftedStart = XAdd (XRef 0 7) icShift1;
                   shiftedEnd = XAdd icRawEnd icShift1;
                   icWasShifted2 = XLt (XAbs (XSub shiftedStart (l2End lc))) (XTime 0 0 1);
                   icCovers2 = XAnd (XLt shiftedStart (l2Val lc))
                                    (XGt shiftedEnd (XAdd (l2Val lc) (XTime 0 0 1)));
                   icC2 = XOr icWasShifted2 icCovers2
               in XOr icC1 icC2)
         else icC1)"

text \<open>
  The end-time formula; from the end-time column, \<^verbatim>\<open>RC[-2]\<close> is the start and \<^verbatim>\<open>RC[-7]\<close>
  the duration.
\<close>

definition formulaEnd :: "lunch_config \<Rightarrow> string \<Rightarrow> xl" where
  "formulaEnd lc u =
     (let rawEnd = XAdd (XRef 0 (- 2)) (XDiv (XRef 0 (- 7)) (unitDiv u));
          enC1 = XAnd (XLt (XRef 0 (- 2)) (l1Val lc))
                      (XGt rawEnd (XAdd (l1Val lc) (XTime 0 0 1)));
          enShift1 = XIf enC1 (lDurVal lc) (XNum 0)
      in if hasLunch2 lc
         then (let shiftedEnd = XAdd rawEnd enShift1;
                   enC2 = XAnd (XLt (XAdd (XRef 0 (- 2)) enShift1) (l2Val lc))
                               (XGt shiftedEnd (XAdd (l2Val lc) (XTime 0 0 1)));
                   enShift2 = XIf enC2 (lDurVal lc) (XNum 0)
               in XMod1 (XAdd (XAdd rawEnd enShift1) enShift2))
         else XMod1 (XAdd rawEnd enShift1))"

text \<open>
  The sheet rows of the entries: for every entry, in the order of the export, the numbers
  of its first and last data row (\<^verbatim>\<open>dataStartRow\<close>, \<^verbatim>\<open>dataEndRow\<close>); \<open>sheetRow\<close> counts the
  rows emitted so far. An entry is a title row, a header row, its data rows, the Z7
  title row, two rows per Z7 line, and a spacer row.
\<close>

fun entry_rows :: "nat \<Rightarrow> entry list \<Rightarrow> (nat \<times> nat) list" where
  "entry_rows sheetRow [] = []"
| "entry_rows sheetRow (data # rest) =
     (let dataStartRow = sheetRow + 2 + 1;
          dataEndRow = dataStartRow + length (e_rows data) - 1
      in (dataStartRow, dataEndRow)
           # entry_rows (sheetRow + 2 + length (e_rows data) + 1 + 2 * length (e_z7 data) + 1) rest)"

text \<open>The time of day of a \<^verbatim>\<open>Date\<close> as a fraction of the day, the value of a time cell.\<close>

definition tod :: "int \<Rightarrow> rat" where
  "tod t = of_int (t mod 86400000) / 86400000"

text \<open>The cells a formula of a data row refers to, by column offset from the formula's own column.\<close>

definition start_env :: "rat \<Rightarrow> rat \<Rightarrow> int \<Rightarrow> int \<Rightarrow> rat" where
  "start_env prevEnd pause dr dc = (if dc = 2 then prevEnd else pause)"

definition end_env :: "rat \<Rightarrow> rat \<Rightarrow> int \<Rightarrow> int \<Rightarrow> rat" where
  "end_env start durCell dr dc = (if dc = - 2 then start else durCell)"

definition icon_env :: "rat \<Rightarrow> rat \<Rightarrow> int \<Rightarrow> int \<Rightarrow> rat" where
  "icon_env start durCell dr dc = (if dc = 7 then start else durCell)"

definition no_lookup :: "nat \<Rightarrow> nat \<Rightarrow> nat \<times> nat \<Rightarrow> rat" where
  "no_lookup s e k = 0"

section \<open>Export: text and number cells\<close>

text \<open>\<^verbatim>\<open>excelSanitizeCell\<close>, on a string argument.\<close>

definition excelSanitizeCell :: "string \<Rightarrow> string" where
  "excelSanitizeCell str =
     (if str = [] then []
      else if hd str \<in> set [CHR ''='', CHR ''+'', CHR ''-'', CHR ''@''] then CHR 0x27 # str
      else str)"

text \<open>\<^verbatim>\<open>replaceAll(c, rep)\<close> for a single character \<open>c\<close>, and \<^verbatim>\<open>escapeXml\<close>.\<close>

definition replaceAll :: "char \<Rightarrow> string \<Rightarrow> string \<Rightarrow> string" where
  "replaceAll c rep s = concat (map (\<lambda>x. if x = c then rep else [x]) s)"

definition escapeXml :: "string \<Rightarrow> string" where
  "escapeXml unsafe =
     replaceAll (CHR 0x27) ''&apos;''
       (replaceAll (CHR 0x22) ''&quot;''
         (replaceAll (CHR ''>'') ''&gt;''
           (replaceAll (CHR ''<'') ''&lt;''
             (replaceAll (CHR ''&'') ''&amp;'' unsafe))))"

text \<open>
  \<^verbatim>\<open>trim\<close>, for the white space characters of ASCII (the others that JavaScript trims
  are not modelled).
\<close>

definition is_ws :: "char \<Rightarrow> bool" where
  "is_ws c = (c \<in> set [CHR 0x20, CHR 0x09, CHR 0x0A, CHR 0x0B, CHR 0x0C, CHR 0x0D])"

definition trim :: "string \<Rightarrow> string" where
  "trim s = rev (dropWhile is_ws (rev (dropWhile is_ws s)))"

text \<open>The \<^verbatim>\<open>Data\<close> element of a cell: its type and its content.\<close>

datatype data_cell = NumberCell rat | StringCell string

text \<open>
  The cells of the operation label, the worker label, the operation name, the title
  and a Z7 line. \<open>num\<close> stands for the built-in \<^verbatim>\<open>Number\<close> on strings, with \<open>NaN\<close> for
  every result that \<^verbatim>\<open>Number.isFinite\<close> rejects.
\<close>

definition opIdxCell :: "(string \<Rightarrow> rat parsed) \<Rightarrow> string \<Rightarrow> data_cell" where
  "opIdxCell num opIdx =
     (case num (replaceAll (CHR 0x27) [] opIdx) of
        Num opIdxNum \<Rightarrow> NumberCell opIdxNum
      | NaN \<Rightarrow> StringCell (escapeXml opIdx))"

definition workerCell :: "(string \<Rightarrow> rat parsed) \<Rightarrow> string \<Rightarrow> data_cell" where
  "workerCell num workerRaw =
     (case num (replaceAll (CHR 0x27) [] workerRaw) of
        Num workerNum \<Rightarrow>
          if trim workerRaw \<noteq> [] then NumberCell workerNum
          else StringCell (escapeXml (excelSanitizeCell workerRaw))
      | NaN \<Rightarrow> StringCell (escapeXml (excelSanitizeCell workerRaw)))"

definition nameCell :: "string \<Rightarrow> data_cell" where
  "nameCell name = StringCell (escapeXml (excelSanitizeCell name))"

definition titleCell :: "string \<Rightarrow> data_cell" where
  "titleCell title = StringCell (escapeXml (excelSanitizeCell title))"

definition z7Cell :: "string \<Rightarrow> data_cell" where
  "z7Cell line = StringCell (escapeXml (excelSanitizeCell line))"

text \<open>
  A stand-in for \<^verbatim>\<open>Number\<close> on the labels of the examples: the empty string is 0, a
  string of decimal digits is its value, and every other string is not a number (the
  built-in accepts more: signs, fractions, exponents, surrounding white space).
\<close>

definition digit_of :: "char \<Rightarrow> nat option" where
  "digit_of c = map_of (zip ''0123456789'' [0, 1, 2, 3, 4, 5, 6, 7, 8, 9]) c"

fun digits_value :: "nat \<Rightarrow> string \<Rightarrow> nat option" where
  "digits_value n [] = Some n"
| "digits_value n (c # cs) =
     (case digit_of c of None \<Rightarrow> None | Some d \<Rightarrow> digits_value (10 * n + d) cs)"

definition digits_Number :: "string \<Rightarrow> rat parsed" where
  "digits_Number s = (case digits_value 0 s of None \<Rightarrow> NaN | Some n \<Rightarrow> Num (of_nat n))"

text \<open>\<^verbatim>\<open>Array.from(entries).reverse()\<close>: the entries in the order of the export.\<close>

definition export_entries :: "app \<Rightarrow> entry list" where
  "export_entries a = rev (historyList a)"

section \<open>Example inputs\<close>

text \<open>
  One operation of \<open>d\<close> minutes for one worker, starting at 08:00 on day 0, with the
  lunch window at 08:30 for 30 minutes and the second lunch field left at its default.
\<close>

definition boundary_op :: "rat \<Rightarrow> op_block" where
  "boundary_op d = \<lparr>op_name = ''op'', op_duration = Num d, op_unit = ''min'',
     op_break_val = Num 0, op_break_unit = ''min'', op_workers = []\<rparr>"

definition boundary_form :: "rat \<Rightarrow> form" where
  "boundary_form d = \<lparr>startD = Some 0, startT = Some (8, 0, 0), workerCountField = Num 1,
     timeMode = ''per_worker'', lunchStartInput = Some (8, 30), lunchStartInput2 = None,
     lunchDurField = Num 30, chainMode = False, ops = [boundary_op d], z7Lines = []\<rparr>"

definition page_of :: "form \<Rightarrow> app" where
  "page_of f = \<lparr>page_form = f, tableResult = [], historyList = []\<rparr>"

text \<open>
  Two operations for two workers in \<open>total\<close> mode from 11:30 with lunch at 12:00 for
  60 minutes: 90 minutes of work, then 20 minutes after a pause of 5 minutes.
\<close>

definition two_op_form :: form where
  "two_op_form = \<lparr>startD = Some 0, startT = Some (11, 30, 0), workerCountField = Num 2,
     timeMode = ''total'', lunchStartInput = Some (12, 0), lunchStartInput2 = None,
     lunchDurField = Num 60, chainMode = False,
     ops = [\<lparr>op_name = ''first'', op_duration = Num 90, op_unit = ''min'',
              op_break_val = Num 0, op_break_unit = ''min'', op_workers = []\<rparr>,
            \<lparr>op_name = ''second'', op_duration = Num 20, op_unit = ''min'',
              op_break_val = Num 5, op_break_unit = ''min'', op_workers = []\<rparr>],
     z7Lines = []\<rparr>"

text \<open>Five operations with checkboxes for two workers, all checked.\<close>

definition five_blocks :: "op_block list" where
  "five_blocks = replicate 5 \<lparr>op_name = ''op'', op_duration = Num 10, op_unit = ''min'',
     op_break_val = Num 0, op_break_unit = ''min'', op_workers = [(1, True), (2, True)]\<rparr>"

definition individual_config :: config where
  "individual_config = \<lparr>c_workerCount = 2, c_timeMode = ''individual'',
     c_lunch1 = (mkDate 0 12 0 0, mkDate 0 13 0 0), c_lunch2 = (mkDate 1 0 0 0, mkDate 1 1 0 0)\<rparr>"

text \<open>
  A chained run of one operation of \<open>d\<close> minutes for one worker from 08:00 on day 0,
  lunch at 12:00 for 60 minutes.
\<close>

definition chain_form :: "rat \<Rightarrow> form" where
  "chain_form d = \<lparr>startD = Some 0, startT = Some (8, 0, 0), workerCountField = Num 1,
     timeMode = ''per_worker'', lunchStartInput = Some (12, 0), lunchStartInput2 = None,
     lunchDurField = Num 60, chainMode = True, ops = [boundary_op d], z7Lines = []\<rparr>"

text \<open>
  Two chained runs: run A is \<open>chain_form 120\<close>, 08:00 to 10:00; run B is made on the page
  run A leaves, with the one operation changed to \<open>d\<close> minutes.
\<close>

definition chain_page_A :: app where
  "chain_page_A = snd (generateTable (page_of (chain_form 120)))"

definition chain_page_B :: "rat \<Rightarrow> app" where
  "chain_page_B d =
     snd (generateTable (chain_page_A\<lparr>page_form := (page_form chain_page_A)\<lparr>ops := [boundary_op d]\<rparr>\<rparr>))"

definition entry_A :: "rat \<Rightarrow> entry" where
  "entry_A d = export_entries (chain_page_B d) ! 0"

definition entry_B :: "rat \<Rightarrow> entry" where
  "entry_B d = export_entries (chain_page_B d) ! 1"

definition last_row_A :: "rat \<Rightarrow> row" where
  "last_row_A d = last (rowsForExport (e_rows (entry_A d)))"

definition first_row_B :: "rat \<Rightarrow> row" where
  "first_row_B d = hd (rowsForExport (e_rows (entry_B d)))"

text \<open>
  One operation of 60 minutes for one worker from 23:30 on day 0, lunch at 12:00 for 60
  minutes, the second lunch field at 00:00.
\<close>

definition night_form :: form where
  "night_form = \<lparr>startD = Some 0, startT = Some (23, 30, 0), workerCountField = Num 1,
     timeMode = ''per_worker'', lunchStartInput = Some (12, 0), lunchStartInput2 = Some (0, 0),
     lunchDurField = Num 60, chainMode = False, ops = [boundary_op 60], z7Lines = []\<rparr>"

section \<open>Properties of the clock\<close>

lemma newDate_mono:
  assumes "x \<le> y"
  shows "newDate x \<le> newDate y"
proof (cases "0 \<le> x")
  case True
  with assms have "0 \<le> y" by simp
  with True assms show ?thesis by (simp add: newDate_def floor_mono)
next
  case False
  show ?thesis
  proof (cases "0 \<le> y")
    case True
    have "\<lceil>x\<rceil> \<le> 0" using False by (simp add: ceiling_le_iff)
    moreover have "0 \<le> \<lfloor>y\<rfloor>" using True by simp
    ultimately have "\<lceil>x\<rceil> \<le> \<lfloor>y\<rfloor>" by linarith
    then show ?thesis using False True by (simp add: newDate_def)
  next
    case y: False
    with False assms show ?thesis by (simp add: newDate_def ceiling_mono)
  qed
qed

lemma newDate_of_int [simp]: "newDate (of_int n) = n"
  by (simp add: newDate_def)

lemma newDate_ge: "0 \<le> d \<Longrightarrow> n \<le> newDate (of_int n + d)"
  using newDate_mono [of "of_int n" "of_int n + d"] by simp

lemma newDate_shift_mono: "m \<le> n \<Longrightarrow> newDate (of_int m + d) \<le> newDate (of_int n + d)"
  by (rule newDate_mono) simp

lemma dur_nonneg: "0 \<le> dur b"
  by (simp add: dur_def)

lemma durationMsForCalc_nonneg: "0 \<le> durationMsForCalc tm wc b"
  using dur_nonneg [of b]
  by (simp add: durationMsForCalc_def origDurationMs_def Let_def)

lemma opBreakMsForCalc_nonneg: "0 \<le> opBreakMsForCalc tm b"
  by (simp add: opBreakMsForCalc_def origOpBreakMs_def opBreakSec_def opBreakVal_def)

lemma lunchDurMin_range: "0 \<le> lunchDurMin f \<and> lunchDurMin f \<le> 480"
  by (simp add: lunchDurMin_def)

lemma mk_config_windows: "wf_windows (mk_config f day g)"
  using lunchDurMin_range [of f]
  by (simp add: wf_windows_def mk_config_def lunchWindow_def lunch2Window_def Let_def newDate_ge)

lemma two_windows_forward:
  assumes a: "fst a \<le> snd a" and b: "fst b \<le> snd b" and ab: "fst a \<le> fst b" and d: "0 \<le> d"
  shows "let st0 = \<lparr>opStart = g, opEnd = newDate (of_int g + d), crossedLunch = False\<rparr>;
             st1 = lunch_step d a st0;
             st2 = lunch_step d b st1
         in opStart st0 \<le> opStart st1 \<and> opEnd st0 \<le> opEnd st1
          \<and> opStart st1 \<le> opStart st2 \<and> opEnd st1 \<le> opEnd st2
          \<and> opStart st2 \<le> opEnd st2"
proof -
  have f1: "g \<le> newDate (of_int g + d)" "snd a \<le> newDate (of_int (snd a) + d)"
    "snd b \<le> newDate (of_int (snd b) + d)"
    using d by (simp_all add: newDate_ge)
  have f2: "g \<le> snd a \<Longrightarrow> newDate (of_int g + d) \<le> newDate (of_int (snd a) + d)"
    "g \<le> snd b \<Longrightarrow> newDate (of_int g + d) \<le> newDate (of_int (snd b) + d)"
    "snd a \<le> snd b \<Longrightarrow> newDate (of_int (snd a) + d) \<le> newDate (of_int (snd b) + d)"
    by (simp_all add: newDate_shift_mono)
  obtain sa ea sb eb where [simp]: "a = (sa, ea)" "b = (sb, eb)"
    by (cases a, cases b) auto
  show ?thesis
    using a b ab f1 f2
    by (simp add: lunch_step_def Let_def)
qed

lemma schedule_op_forward:
  assumes "wf_windows c"
  shows "g + opBreakMsForCalc (c_timeMode c) b \<le> opStart (schedule_op c g b)
       \<and> newDate (of_int (g + opBreakMsForCalc (c_timeMode c) b)
              + durationMsForCalc (c_timeMode c) (c_workerCount c) b) \<le> opEnd (schedule_op c g b)
       \<and> opStart (schedule_op c g b) \<le> opEnd (schedule_op c g b)"
proof -
  define d where "d = durationMsForCalc (c_timeMode c) (c_workerCount c) b"
  define g1 where "g1 = g + opBreakMsForCalc (c_timeMode c) b"
  define st0 where "st0 = \<lparr>opStart = g1, opEnd = newDate (of_int g1 + d), crossedLunch = False\<rparr>"
  have d: "0 \<le> d" unfolding d_def by (rule durationMsForCalc_nonneg)
  have w1: "fst (c_lunch1 c) \<le> snd (c_lunch1 c)" and w2: "fst (c_lunch2 c) \<le> snd (c_lunch2 c)"
    using assms by (simp_all add: wf_windows_def)
  have st0: "opStart st0 = g1" "opEnd st0 = newDate (of_int g1 + d)"
    by (simp_all add: st0_def)
  show ?thesis
  proof (cases "fst (c_lunch2 c) < fst (c_lunch1 c)")
    case True
    then have o: "fst (c_lunch2 c) \<le> fst (c_lunch1 c)" by simp
    have eq: "schedule_op c g b = lunch_step d (c_lunch1 c) (lunch_step d (c_lunch2 c) st0)"
      using True by (simp add: schedule_op_def apply_lunches_def sort_lunches_def Let_def
          d_def g1_def st0_def)
    from two_windows_forward [OF w2 w1 o d, of g1, unfolded Let_def, folded st0_def]
    show ?thesis unfolding eq d_def [symmetric] g1_def [symmetric] using st0 by linarith
  next
    case False
    then have o: "fst (c_lunch1 c) \<le> fst (c_lunch2 c)" by simp
    have eq: "schedule_op c g b = lunch_step d (c_lunch2 c) (lunch_step d (c_lunch1 c) st0)"
      using False by (simp add: schedule_op_def apply_lunches_def sort_lunches_def Let_def
          d_def g1_def st0_def)
    from two_windows_forward [OF w1 w2 o d, of g1, unfolded Let_def, folded st0_def]
    show ?thesis unfolding eq d_def [symmetric] g1_def [symmetric] using st0 by linarith
  qed
qed

lemma op_rows_times: "r \<in> set (op_rows c i b st) \<Longrightarrow> startObj r = opStart st \<and> endObj r = opEnd st \<and> opNumeric r = Suc i"
  by (auto simp: op_rows_def mk_row_def)

lemma run_ops_mono:
  assumes "wf_windows c"
  shows "run_ops c i g bs = (rs, sts, g') \<Longrightarrow>
     length sts = length bs
   \<and> (\<forall>k<length sts. opStart (sts ! k) \<le> opEnd (sts ! k))
   \<and> (\<forall>k. Suc k < length sts \<longrightarrow>
         opEnd (sts ! k) + opBreakMsForCalc (c_timeMode c) (bs ! Suc k) \<le> opStart (sts ! Suc k))
   \<and> (sts \<noteq> [] \<longrightarrow> g + opBreakMsForCalc (c_timeMode c) (hd bs) \<le> opStart (hd sts))
   \<and> (\<forall>r\<in>set rs. startObj r \<le> endObj r)
   \<and> g \<le> g'"
proof (induction bs arbitrary: i g rs sts g')
  case Nil
  then show ?case by simp
next
  case (Cons b bs)
  define st where "st = schedule_op c g b"
  obtain rs1 sts1 g1 where r1: "run_ops c (Suc i) (opEnd st) bs = (rs1, sts1, g1)"
    by (metis prod_cases3)
  from Cons.prems have eqs: "rs = op_rows c i b st @ rs1" "sts = st # sts1" "g' = g1"
    by (simp_all add: st_def [symmetric] r1 Let_def)
  from Cons.IH [OF r1] have
    ih_len: "length sts1 = length bs" and
    ih_se: "\<And>k. k < length sts1 \<Longrightarrow> opStart (sts1 ! k) \<le> opEnd (sts1 ! k)" and
    ih_cons: "\<And>k. Suc k < length sts1 \<Longrightarrow>
         opEnd (sts1 ! k) + opBreakMsForCalc (c_timeMode c) (bs ! Suc k) \<le> opStart (sts1 ! Suc k)" and
    ih_hd: "sts1 \<noteq> [] \<Longrightarrow> opEnd st + opBreakMsForCalc (c_timeMode c) (hd bs) \<le> opStart (hd sts1)" and
    ih_rows: "\<And>r. r \<in> set rs1 \<Longrightarrow> startObj r \<le> endObj r" and
    ih_g: "opEnd st \<le> g1"
    by blast+
  from schedule_op_forward [OF assms, of g b, folded st_def] have
    fw1: "g + opBreakMsForCalc (c_timeMode c) b \<le> opStart st" and
    fw3: "opStart st \<le> opEnd st"
    by blast+
  have b0: "0 \<le> opBreakMsForCalc (c_timeMode c) b" by (rule opBreakMsForCalc_nonneg)
  have len: "length sts = length (b # bs)" using ih_len eqs by simp
  have se: "\<forall>k<length sts. opStart (sts ! k) \<le> opEnd (sts ! k)"
  proof (intro allI impI)
    fix k assume "k < length sts"
    then show "opStart (sts ! k) \<le> opEnd (sts ! k)"
      using fw3 ih_se [of "k - 1"] unfolding eqs by (cases k) simp_all
  qed
  have cons: "\<forall>k. Suc k < length sts \<longrightarrow>
         opEnd (sts ! k) + opBreakMsForCalc (c_timeMode c) ((b # bs) ! Suc k) \<le> opStart (sts ! Suc k)"
  proof (intro allI impI)
    fix k assume k: "Suc k < length sts"
    show "opEnd (sts ! k) + opBreakMsForCalc (c_timeMode c) ((b # bs) ! Suc k) \<le> opStart (sts ! Suc k)"
    proof (cases k)
      case 0
      with k eqs have ne: "sts1 \<noteq> []" by auto
      then have "bs \<noteq> []" using ih_len by auto
      with ih_hd [OF ne] show ?thesis using 0 ne unfolding eqs by (simp add: hd_conv_nth)
    next
      case (Suc j)
      with k ih_cons [of j] show ?thesis unfolding eqs by simp
    qed
  qed
  have hd: "sts \<noteq> [] \<longrightarrow> g + opBreakMsForCalc (c_timeMode c) (hd (b # bs)) \<le> opStart (hd sts)"
    using fw1 unfolding eqs by simp
  have rows: "\<forall>r\<in>set rs. startObj r \<le> endObj r"
  proof
    fix r assume "r \<in> set rs"
    then consider "r \<in> set (op_rows c i b st)" | "r \<in> set rs1" unfolding eqs by auto
    then show "startObj r \<le> endObj r"
    proof cases
      case 1
      from op_rows_times [OF 1] fw3 show ?thesis by simp
    next
      case 2
      then show ?thesis by (rule ih_rows)
    qed
  qed
  have gg: "g \<le> g'" using ih_g fw1 fw3 b0 unfolding eqs by linarith
  show ?case
    apply (intro conjI)
    apply (rule len) apply (rule se) apply (rule cons) apply (rule hd) apply (rule rows) apply (rule gg)
    done
qed


text \<open>
  C2. Lunch window rules. For a window \<open>(s, e)\<close>: when the start lies in \<open>[s, e)\<close> the
  start moves to \<open>e\<close>, the end is recomputed from it with the duration, and the lunch
  flag is set (rule A); when the start is before \<open>s\<close> and the end after \<open>s\<close>, both
  strictly, the end grows by the length of the window and the flag is set (rule B); an
  interval that starts before \<open>s\<close> and ends at \<open>s\<close> or earlier is left as it is. The
  two windows are processed by ascending start. From 08:00 with lunch at 08:30 for 30
  minutes, 30 minutes of work end at 08:30 without the flag, and 31 minutes of work
  end at 09:01 with it.
\<close>

theorem lunch_window_rules:
  "(s \<le> opStart st \<and> opStart st < e \<longrightarrow>
      lunch_step d (s, e) st
        = \<lparr>opStart = e, opEnd = newDate (of_int e + d), crossedLunch = True\<rparr>)
   \<and> (opStart st < s \<and> s < opEnd st \<longrightarrow>
      lunch_step d (s, e) st = st\<lparr>opEnd := opEnd st + (e - s), crossedLunch := True\<rparr>)
   \<and> (opStart st < s \<and> opEnd st \<le> s \<longrightarrow> lunch_step d (s, e) st = st)
   \<and> apply_lunches d (sort_lunches l1 l2) st
        = (if fst l2 < fst l1 then lunch_step d l1 (lunch_step d l2 st)
           else lunch_step d l2 (lunch_step d l1 st))
   \<and> map (\<lambda>r. (startObj r, endObj r, r_crossedLunch r))
         (tableResult (snd (generateTable (page_of (boundary_form 30)))))
        = [(mkDate 0 8 0 0, mkDate 0 8 30 0, False)]
   \<and> map (\<lambda>r. (startObj r, endObj r, r_crossedLunch r))
         (tableResult (snd (generateTable (page_of (boundary_form 31)))))
        = [(mkDate 0 8 0 0, mkDate 0 9 1 0, True)]"
proof -
  have A: "s \<le> opStart st \<and> opStart st < e \<longrightarrow>
      lunch_step d (s, e) st
        = \<lparr>opStart = e, opEnd = newDate (of_int e + d), crossedLunch = True\<rparr>"
    by (simp add: lunch_step_def Let_def)
  have B: "opStart st < s \<and> s < opEnd st \<longrightarrow>
      lunch_step d (s, e) st = st\<lparr>opEnd := opEnd st + (e - s), crossedLunch := True\<rparr>"
    by (simp add: lunch_step_def Let_def)
  have N: "opStart st < s \<and> opEnd st \<le> s \<longrightarrow> lunch_step d (s, e) st = st"
    by (simp add: lunch_step_def Let_def)
  have S: "apply_lunches d (sort_lunches l1 l2) st
        = (if fst l2 < fst l1 then lunch_step d l1 (lunch_step d l2 st)
           else lunch_step d l2 (lunch_step d l1 st))"
    by (simp add: apply_lunches_def sort_lunches_def)
  have E1: "map (\<lambda>r. (startObj r, endObj r, r_crossedLunch r))
         (tableResult (snd (generateTable (page_of (boundary_form 30)))))
        = [(mkDate 0 8 0 0, mkDate 0 8 30 0, False)]"
    by code_simp
  have E2: "map (\<lambda>r. (startObj r, endObj r, r_crossedLunch r))
         (tableResult (snd (generateTable (page_of (boundary_form 31)))))
        = [(mkDate 0 8 0 0, mkDate 0 9 1 0, True)]"
    by code_simp
  from A B N S E1 E2 show ?thesis by (intro conjI)
qed

theorem lunch_window_rules_witness:
  "lunch_step 600000 (1800000, 3600000) \<lparr>opStart = 2000000, opEnd = 2600000, crossedLunch = False\<rparr>
     = \<lparr>opStart = 3600000, opEnd = 4200000, crossedLunch = True\<rparr>
   \<and> lunch_step 1860000 (1800000, 3600000) \<lparr>opStart = 0, opEnd = 1860000, crossedLunch = False\<rparr>
     = \<lparr>opStart = 0, opEnd = 3660000, crossedLunch = True\<rparr>
   \<and> lunch_step 1800000 (1800000, 3600000) \<lparr>opStart = 0, opEnd = 1800000, crossedLunch = False\<rparr>
     = \<lparr>opStart = 0, opEnd = 1800000, crossedLunch = False\<rparr>"
  using lunch_window_rules [of 1800000 "\<lparr>opStart = 2000000, opEnd = 2600000, crossedLunch = False\<rparr>"
      3600000 600000]
    lunch_window_rules [of 1800000 "\<lparr>opStart = 0, opEnd = 1860000, crossedLunch = False\<rparr>"
      3600000 1860000]
    lunch_window_rules [of 1800000 "\<lparr>opStart = 0, opEnd = 1800000, crossedLunch = False\<rparr>"
      3600000 1800000]
  by (simp add: newDate_def)



text \<open>
  C4. Duration resolver. For a raw duration \<open>d \<ge> 0\<close> and \<open>N\<close> workers: in \<open>total\<close>
  mode with \<open>N > 1\<close> the elapsed duration is \<open>d / N\<close> (in milliseconds of the unit) and
  the displayed duration is \<open>d / N\<close>; in \<open>per_worker\<close> mode both are \<open>d\<close>; in
  \<open>individual\<close> mode the elapsed duration and the pause that advance the clock are 0,
  the interval handed to the lunch windows is empty at the clock, and the displayed
  duration is still \<open>d\<close>.
\<close>

theorem duration_resolver_modes:
  assumes "op_duration b = Num d" and "0 \<le> d"
  shows "(1 < wc \<longrightarrow>
            durationMsForCalc ''total'' wc b
              = (if unit_of b = ''hour'' then 3600000 else 60000) * (d / of_int wc)
          \<and> displayDurVal ''total'' wc b = d / of_int wc)
   \<and> durationMsForCalc ''per_worker'' wc b = (if unit_of b = ''hour'' then 3600000 else 60000) * d
   \<and> displayDurVal ''per_worker'' wc b = d
   \<and> durationMsForCalc ''individual'' wc b = 0
   \<and> opBreakMsForCalc ''individual'' b = 0
   \<and> displayDurVal ''individual'' wc b = d
   \<and> (c_timeMode c = ''individual'' \<longrightarrow>
        schedule_op c g b
          = apply_lunches 0 (sort_lunches (c_lunch1 c) (c_lunch2 c))
              \<lparr>opStart = g, opEnd = g, crossedLunch = False\<rparr>)"
proof -
  have dur: "dur b = d" using assms by (simp add: dur_def or_zero_def)
  show ?thesis
    by (simp add: durationMsForCalc_def displayDurVal_def origDurationMs_def opBreakMsForCalc_def
        schedule_op_def dur Let_def)
qed

theorem duration_resolver_modes_witness:
  "durationMsForCalc ''total'' 4 (boundary_op 40) = 600000
   \<and> displayDurVal ''total'' 4 (boundary_op 40) = 10
   \<and> durationMsForCalc ''per_worker'' 3 (boundary_op 20) = 1200000
   \<and> displayDurVal ''per_worker'' 3 (boundary_op 20) = 20
   \<and> durationMsForCalc ''individual'' 3 (boundary_op 20) = 0
   \<and> displayDurVal ''individual'' 3 (boundary_op 20) = 20
   \<and> schedule_op (mk_config (boundary_form 20\<lparr>timeMode := ''individual''\<rparr>) 0 28800000) 28800000
         (boundary_op 20)
       = \<lparr>opStart = 28800000, opEnd = 28800000, crossedLunch = False\<rparr>"
proof -
  have b40: "op_duration (boundary_op 40) = Num 40" and b20: "op_duration (boundary_op 20) = Num 20"
    by (simp_all add: boundary_op_def)
  have u: "unit_of (boundary_op 40) \<noteq> ''hour''" "unit_of (boundary_op 20) \<noteq> ''hour''"
    by (simp_all add: boundary_op_def unit_of_def)
  have tm: "c_timeMode (mk_config (boundary_form 20\<lparr>timeMode := ''individual''\<rparr>) 0 28800000)
      = ''individual''"
    by (simp add: mk_config_def)
  have ev: "apply_lunches 0
      (sort_lunches (c_lunch1 (mk_config (boundary_form 20\<lparr>timeMode := ''individual''\<rparr>) 0 28800000))
         (c_lunch2 (mk_config (boundary_form 20\<lparr>timeMode := ''individual''\<rparr>) 0 28800000)))
      \<lparr>opStart = 28800000, opEnd = 28800000, crossedLunch = False\<rparr>
     = \<lparr>opStart = 28800000, opEnd = 28800000, crossedLunch = False\<rparr>"
    by code_simp
  from duration_resolver_modes [OF b40, of 4]
    duration_resolver_modes [OF b20, of 3
      "mk_config (boundary_form 20\<lparr>timeMode := ''individual''\<rparr>) 0 28800000" 28800000]
    u tm ev
  show ?thesis by simp
qed


section \<open>Rows\<close>

lemma op_rows_worker:
  "(\<exists>r\<in>set (op_rows c i b st). workerIndex r = w)
     \<longleftrightarrow> (1 \<le> w \<and> int w \<le> c_workerCount c \<and> \<not> skipped b w)"
  by (auto simp: op_rows_def mk_row_def)

lemma op_rows_sorted:
  "sorted_wrt (\<lambda>a b. workerIndex a < workerIndex b) (op_rows c i b st)"
proof -
  have "sorted_wrt (<) (filter (\<lambda>w. \<not> skipped b w) [1 ..< Suc (nat (c_workerCount c))])"
    by (intro sorted_wrt_filter sorted_wrt_upt)
  then show ?thesis
    unfolding op_rows_def sorted_wrt_map by (simp add: mk_row_def del: upt_Suc)
qed

lemma op_rows_worker_pos: "r \<in> set (op_rows c i b st) \<Longrightarrow> 1 \<le> workerIndex r"
  by (auto simp: op_rows_def mk_row_def)

lemma run_ops_rows:
  "run_ops c i g bs = (rs, sts, g') \<Longrightarrow>
     length sts = length bs
   \<and> (\<forall>r\<in>set rs. i < opNumeric r \<and> opNumeric r \<le> i + length bs \<and> 1 \<le> workerIndex r
          \<and> startObj r = opStart (sts ! (opNumeric r - Suc i))
          \<and> endObj r = opEnd (sts ! (opNumeric r - Suc i)))
   \<and> sorted_wrt row_before rs"
proof (induction bs arbitrary: i g rs sts g')
  case Nil
  then show ?case by simp
next
  case (Cons b bs)
  define st where "st = schedule_op c g b"
  obtain rs1 sts1 g1 where r1: "run_ops c (Suc i) (opEnd st) bs = (rs1, sts1, g1)"
    by (metis prod_cases3)
  from Cons.prems have eqs: "rs = op_rows c i b st @ rs1" "sts = st # sts1" "g' = g1"
    by (simp_all add: st_def [symmetric] r1 Let_def)
  from Cons.IH [OF r1] have
    ih_len: "length sts1 = length bs" and
    ih_rows: "\<And>r. r \<in> set rs1 \<Longrightarrow> Suc i < opNumeric r \<and> opNumeric r \<le> Suc i + length bs
          \<and> 1 \<le> workerIndex r
          \<and> startObj r = opStart (sts1 ! (opNumeric r - Suc (Suc i)))
          \<and> endObj r = opEnd (sts1 ! (opNumeric r - Suc (Suc i)))" and
    ih_sorted: "sorted_wrt row_before rs1"
    by blast+
  have len: "length sts = length (b # bs)" using ih_len eqs by simp
  have rows: "\<forall>r\<in>set rs. i < opNumeric r \<and> opNumeric r \<le> i + length (b # bs) \<and> 1 \<le> workerIndex r
          \<and> startObj r = opStart (sts ! (opNumeric r - Suc i))
          \<and> endObj r = opEnd (sts ! (opNumeric r - Suc i))"
  proof
    fix r assume "r \<in> set rs"
    then consider "r \<in> set (op_rows c i b st)" | "r \<in> set rs1" unfolding eqs by auto
    then show "i < opNumeric r \<and> opNumeric r \<le> i + length (b # bs) \<and> 1 \<le> workerIndex r
          \<and> startObj r = opStart (sts ! (opNumeric r - Suc i))
          \<and> endObj r = opEnd (sts ! (opNumeric r - Suc i))"
    proof cases
      case 1
      from op_rows_times [OF 1] op_rows_worker_pos [OF 1] show ?thesis unfolding eqs by simp
    next
      case 2
      from ih_rows [OF 2] obtain j where j: "opNumeric r = Suc (Suc i) + j"
        by (metis Suc_leI le_iff_add)
      with ih_rows [OF 2] show ?thesis unfolding eqs by simp
    qed
  qed
  have sorted: "sorted_wrt row_before rs"
    unfolding eqs sorted_wrt_append
  proof (intro conjI ballI)
    show "sorted_wrt row_before (op_rows c i b st)"
      using op_rows_sorted [of c i b st]
    proof (rule sorted_wrt_mono_rel [rotated])
      fix x y assume "x \<in> set (op_rows c i b st)" "y \<in> set (op_rows c i b st)"
        "workerIndex x < workerIndex y"
      with op_rows_times [of x c i b st] op_rows_times [of y c i b st]
      show "row_before x y" by (simp add: row_before_def)
    qed
    show "sorted_wrt row_before rs1" by (rule ih_sorted)
  next
    fix x y assume "x \<in> set (op_rows c i b st)" "y \<in> set rs1"
    with op_rows_times [of x c i b st] ih_rows [of y] show "row_before x y"
      by (simp add: row_before_def)
  qed
  from len rows sorted show ?case by (intro conjI)
qed

lemma sorted_rows_export:
  assumes "sorted_wrt row_before rs" and "\<forall>r\<in>set rs. 1 \<le> workerIndex r"
  shows "rowsForExport rs = rs"
proof -
  have "sorted_wrt (\<lambda>a b. export_key a \<le> export_key b) rs"
    using assms(1)
  proof (rule sorted_wrt_mono_rel [rotated])
    fix a b assume "a \<in> set rs" "b \<in> set rs" "row_before a b"
    with assms(2) show "export_key a \<le> export_key b"
      by (auto simp: row_before_def export_key_def)
  qed
  then have "sorted (map export_key rs)" by (simp add: sorted_map)
  then show ?thesis unfolding rowsForExport_def by (rule sort_key_id_if_sorted)
qed


text \<open>
  C8. Row emission. All rows of one operation carry the start and end of that
  operation's single computation, so two rows with the same operation number have the
  same start and the same end; the rows are in operation order and, within an
  operation, in ascending worker order; the stable sort of the export leaves that order
  as it is.
\<close>

theorem rows_share_operation_times:
  assumes "run_ops c i g bs = (rs, sts, g')"
  shows "(\<forall>r1\<in>set rs. \<forall>r2\<in>set rs. opNumeric r1 = opNumeric r2 \<longrightarrow>
            startObj r1 = startObj r2 \<and> endObj r1 = endObj r2)
   \<and> (\<forall>r\<in>set rs. i < opNumeric r \<and> opNumeric r \<le> i + length bs
          \<and> startObj r = opStart (sts ! (opNumeric r - Suc i))
          \<and> endObj r = opEnd (sts ! (opNumeric r - Suc i)))
   \<and> sorted_wrt row_before rs
   \<and> rowsForExport rs = rs"
proof -
  from run_ops_rows [OF assms] have
    rows: "\<And>r. r \<in> set rs \<Longrightarrow> i < opNumeric r \<and> opNumeric r \<le> i + length bs \<and> 1 \<le> workerIndex r
          \<and> startObj r = opStart (sts ! (opNumeric r - Suc i))
          \<and> endObj r = opEnd (sts ! (opNumeric r - Suc i))" and
    sorted: "sorted_wrt row_before rs"
    by blast+
  have same: "\<forall>r1\<in>set rs. \<forall>r2\<in>set rs. opNumeric r1 = opNumeric r2 \<longrightarrow>
            startObj r1 = startObj r2 \<and> endObj r1 = endObj r2"
  proof (intro ballI impI)
    fix r1 r2 assume "r1 \<in> set rs" "r2 \<in> set rs" "opNumeric r1 = opNumeric r2"
    with rows [of r1] rows [of r2] show "startObj r1 = startObj r2 \<and> endObj r1 = endObj r2"
      by simp
  qed
  have times: "\<forall>r\<in>set rs. i < opNumeric r \<and> opNumeric r \<le> i + length bs
          \<and> startObj r = opStart (sts ! (opNumeric r - Suc i))
          \<and> endObj r = opEnd (sts ! (opNumeric r - Suc i))"
    using rows by blast
  have "\<forall>r\<in>set rs. 1 \<le> workerIndex r" using rows by blast
  with sorted have export: "rowsForExport rs = rs" by (rule sorted_rows_export)
  from same times sorted export show ?thesis by (intro conjI)
qed

theorem rows_share_operation_times_witness:
  "map (\<lambda>r. (opNumeric r, workerIndex r, startObj r, endObj r))
       (fst (run_ops (mk_config two_op_form 0 41400000) 0 41400000 (ops two_op_form)))
     = [(1, 1, 41400000, 47700000), (1, 2, 41400000, 47700000),
        (2, 1, 48000000, 48600000), (2, 2, 48000000, 48600000)]
   \<and> rowsForExport (fst (run_ops (mk_config two_op_form 0 41400000) 0 41400000 (ops two_op_form)))
     = fst (run_ops (mk_config two_op_form 0 41400000) 0 41400000 (ops two_op_form))"
proof -
  obtain rs sts g' where eq:
    "run_ops (mk_config two_op_form 0 41400000) 0 41400000 (ops two_op_form) = (rs, sts, g')"
    by (metis prod_cases3)
  have vals: "map (\<lambda>r. (opNumeric r, workerIndex r, startObj r, endObj r))
       (fst (run_ops (mk_config two_op_form 0 41400000) 0 41400000 (ops two_op_form)))
     = [(1, 1, 41400000, 47700000), (1, 2, 41400000, 47700000),
        (2, 1, 48000000, 48600000), (2, 2, 48000000, 48600000)]"
    by code_simp
  from rows_share_operation_times [OF eq] have "rowsForExport rs = rs" by blast
  with vals show ?thesis unfolding eq by simp
qed

section \<open>Worker checkboxes and rows\<close>

lemma map_of_set_checked_same:
  "map_of (set_checked w v cbs) w = (if w \<in> fst ` set cbs then Some v else None)"
  by (induction cbs) (auto simp: rev_image_eqI)

lemma map_of_set_checked_other:
  "w' \<noteq> w \<Longrightarrow> map_of (set_checked w v cbs) w' = map_of cbs w'"
  by (induction cbs) auto

lemma skipped_set_worker_False:
  "skipped (set_worker w False b) w \<longleftrightarrow> w \<in> fst ` set (op_workers b)"
  by (simp add: skipped_def set_worker_def map_of_set_checked_same)

lemma skipped_set_worker_True: "\<not> skipped (set_worker w True b) w"
  by (simp add: skipped_def set_worker_def map_of_set_checked_same)

lemma skipped_set_worker_other: "w' \<noteq> w \<Longrightarrow> skipped (set_worker w v b) w' = skipped b w'"
  by (simp add: skipped_def set_worker_def map_of_set_checked_other)

lemma length_checkbox_change [simp]: "length (checkbox_change k w v blocks) = length blocks"
  by (auto simp: checkbox_change_def Let_def)

lemma checkbox_change_False_nth:
  assumes "k < length blocks" and "k \<le> j" and "j < length blocks"
  shows "checkbox_change k w False blocks ! j = set_worker w False (blocks ! j)"
proof (cases "j = k")
  case True
  with assms show ?thesis
    by (simp add: checkbox_change_def Let_def nth_append)
next
  case False
  with assms have "Suc k \<le> j" by simp
  then obtain m where j: "j = Suc k + m" by (metis le_iff_add)
  with assms show ?thesis
    by (simp add: checkbox_change_def Let_def nth_append min_def)
qed

lemma checkbox_change_True_nth:
  assumes "k < length blocks"
  shows "checkbox_change k w True blocks ! j
     = (if j = k then set_worker w True (blocks ! k) else blocks ! j)"
  using assms by (simp add: checkbox_change_def Let_def nth_list_update)

lemma run_ops_row_iff:
  "run_ops c i g bs = (rs, sts, g') \<Longrightarrow>
     (\<exists>r\<in>set rs. opNumeric r = Suc (i + j) \<and> workerIndex r = w)
       \<longleftrightarrow> (j < length bs \<and> 1 \<le> w \<and> int w \<le> c_workerCount c \<and> \<not> skipped (bs ! j) w)"
proof (induction bs arbitrary: i g rs sts g' j)
  case Nil
  then show ?case by simp
next
  case (Cons b bs)
  define st where "st = schedule_op c g b"
  obtain rs1 sts1 g1 where r1: "run_ops c (Suc i) (opEnd st) bs = (rs1, sts1, g1)"
    by (metis prod_cases3)
  from Cons.prems have eqs: "rs = op_rows c i b st @ rs1"
    by (simp_all add: st_def [symmetric] r1 Let_def)
  from run_ops_rows [OF r1] have later: "\<And>r. r \<in> set rs1 \<Longrightarrow> Suc i < opNumeric r" by blast
  show ?case
  proof (cases j)
    case 0
    have "(\<exists>r\<in>set rs. opNumeric r = Suc i \<and> workerIndex r = w)
        \<longleftrightarrow> (\<exists>r\<in>set (op_rows c i b st). workerIndex r = w)"
      unfolding eqs using later by (fastforce dest: op_rows_times)
    then show ?thesis using 0 by (simp add: op_rows_worker)
  next
    case (Suc m)
    have "(\<exists>r\<in>set rs. opNumeric r = Suc (i + j) \<and> workerIndex r = w)
        \<longleftrightarrow> (\<exists>r\<in>set rs1. opNumeric r = Suc (Suc i + m) \<and> workerIndex r = w)"
      unfolding eqs Suc by (auto dest: op_rows_times)
    then show ?thesis using Cons.IH [OF r1, of m] Suc by simp
  qed
qed


text \<open>
  C5, as the code has it. A run emits a row for worker \<open>w\<close> on an operation exactly when
  \<open>w\<close> is within the worker count and the operation's checkbox for \<open>w\<close> is not
  unchecked. Unchecking the checkbox on block \<open>k\<close> unchecks the worker's checkboxes
  on all later blocks, so a run made in that state has no row of the worker for that
  operation or a later one. Checking a checkbox again changes that box only, and the
  worker has a row for that operation again.
\<close>

theorem worker_rows_follow_checkboxes:
  assumes "run_ops c 0 g bs = (rs, sts, g')"
  shows "(\<forall>j w. (\<exists>r\<in>set rs. opNumeric r = Suc j \<and> workerIndex r = w)
            \<longleftrightarrow> (j < length bs \<and> 1 \<le> w \<and> int w \<le> c_workerCount c \<and> \<not> skipped (bs ! j) w))
   \<and> (\<forall>blocks k w. bs = checkbox_change k w False blocks \<and> k < length blocks
          \<and> (\<forall>j. k \<le> j \<and> j < length blocks \<longrightarrow> w \<in> fst ` set (op_workers (blocks ! j)))
        \<longrightarrow> (\<forall>r\<in>set rs. workerIndex r = w \<longrightarrow> opNumeric r \<le> k))
   \<and> (\<forall>blocks k w. bs = checkbox_change k w True blocks \<and> k < length blocks
          \<and> 1 \<le> w \<and> int w \<le> c_workerCount c
        \<longrightarrow> (\<exists>r\<in>set rs. opNumeric r = Suc k \<and> workerIndex r = w))"
proof -
  have iff: "\<And>j w. (\<exists>r\<in>set rs. opNumeric r = Suc j \<and> workerIndex r = w)
            \<longleftrightarrow> (j < length bs \<and> 1 \<le> w \<and> int w \<le> c_workerCount c \<and> \<not> skipped (bs ! j) w)"
    using run_ops_row_iff [OF assms] by simp
  from run_ops_rows [OF assms] have pos: "\<And>r. r \<in> set rs \<Longrightarrow> 0 < opNumeric r" by blast
  have unch: "\<forall>blocks k w. bs = checkbox_change k w False blocks \<and> k < length blocks
          \<and> (\<forall>j. k \<le> j \<and> j < length blocks \<longrightarrow> w \<in> fst ` set (op_workers (blocks ! j)))
        \<longrightarrow> (\<forall>r\<in>set rs. workerIndex r = w \<longrightarrow> opNumeric r \<le> k)"
  proof (intro allI impI ballI)
    fix blocks k w r
    assume h: "bs = checkbox_change k w False blocks \<and> k < length blocks
          \<and> (\<forall>j. k \<le> j \<and> j < length blocks \<longrightarrow> w \<in> fst ` set (op_workers (blocks ! j)))"
      and r: "r \<in> set rs" and w: "workerIndex r = w"
    show "opNumeric r \<le> k"
    proof (rule ccontr)
      assume "\<not> opNumeric r \<le> k"
      define j where "j = opNumeric r - 1"
      have j: "opNumeric r = Suc j" "k \<le> j"
        using \<open>\<not> opNumeric r \<le> k\<close> by (simp_all add: j_def)
      from r w j have "\<exists>r\<in>set rs. opNumeric r = Suc j \<and> workerIndex r = w" by blast
      with iff [of j w] have jl: "j < length bs" and ns: "\<not> skipped (bs ! j) w" by simp_all
      from jl h have jb: "j < length blocks" by simp
      with h j have "bs ! j = set_worker w False (blocks ! j)"
        by (simp add: checkbox_change_False_nth)
      moreover from h j jb have "w \<in> fst ` set (op_workers (blocks ! j))" by blast
      ultimately have "skipped (bs ! j) w" by (simp add: skipped_set_worker_False)
      with ns show False by simp
    qed
  qed
  have rech: "\<forall>blocks k w. bs = checkbox_change k w True blocks \<and> k < length blocks
          \<and> 1 \<le> w \<and> int w \<le> c_workerCount c
        \<longrightarrow> (\<exists>r\<in>set rs. opNumeric r = Suc k \<and> workerIndex r = w)"
  proof (intro allI impI)
    fix blocks k w
    assume h: "bs = checkbox_change k w True blocks \<and> k < length blocks
          \<and> 1 \<le> w \<and> int w \<le> c_workerCount c"
    then have "bs ! k = set_worker w True (blocks ! k)"
      by (simp add: checkbox_change_True_nth)
    then have "\<not> skipped (bs ! k) w" by (simp add: skipped_set_worker_True)
    with h iff [of k w] show "\<exists>r\<in>set rs. opNumeric r = Suc k \<and> workerIndex r = w" by simp
  qed
  have iff': "\<forall>j w. (\<exists>r\<in>set rs. opNumeric r = Suc j \<and> workerIndex r = w)
            \<longleftrightarrow> (j < length bs \<and> 1 \<le> w \<and> int w \<le> c_workerCount c \<and> \<not> skipped (bs ! j) w)"
    by (intro allI) (rule iff)
  from iff' unch rech show ?thesis by (intro conjI)
qed

theorem worker_rows_follow_checkboxes_witness:
  "map (\<lambda>r. (opNumeric r, workerIndex r))
       (fst (run_ops individual_config 0 (mkDate 0 8 0 0) (checkbox_change 2 2 False five_blocks)))
     = [(1, 1), (1, 2), (2, 1), (2, 2), (3, 1), (4, 1), (5, 1)]
   \<and> filter (\<lambda>r. workerIndex r = 2 \<and> 2 < opNumeric r)
       (fst (run_ops individual_config 0 (mkDate 0 8 0 0) (checkbox_change 2 2 False five_blocks)))
     = []
   \<and> (\<exists>r\<in>set (fst (run_ops individual_config 0 (mkDate 0 8 0 0)
                     (checkbox_change 4 2 True (checkbox_change 2 2 False five_blocks)))).
         opNumeric r = 5 \<and> workerIndex r = 2)"
proof -
  obtain rs sts g' where eq:
    "run_ops individual_config 0 (mkDate 0 8 0 0) (checkbox_change 2 2 False five_blocks)
       = (rs, sts, g')"
    by (metis prod_cases3)
  obtain rs2 sts2 g2 where eq2:
    "run_ops individual_config 0 (mkDate 0 8 0 0)
       (checkbox_change 4 2 True (checkbox_change 2 2 False five_blocks)) = (rs2, sts2, g2)"
    by (metis prod_cases3)
  have vals: "map (\<lambda>r. (opNumeric r, workerIndex r))
       (fst (run_ops individual_config 0 (mkDate 0 8 0 0) (checkbox_change 2 2 False five_blocks)))
     = [(1, 1), (1, 2), (2, 1), (2, 2), (3, 1), (4, 1), (5, 1)]"
    by code_simp
  have len: "2 < length five_blocks" by (simp add: five_blocks_def)
  have boxes: "\<forall>j. 2 \<le> j \<and> j < length five_blocks \<longrightarrow> 2 \<in> fst ` set (op_workers (five_blocks ! j))"
    by (simp add: five_blocks_def)
  from worker_rows_follow_checkboxes [OF eq] len boxes
  have "\<forall>r\<in>set rs. workerIndex r = 2 \<longrightarrow> opNumeric r \<le> 2" by blast
  then have none: "filter (\<lambda>r. workerIndex r = 2 \<and> 2 < opNumeric r) rs = []"
    by (auto simp: filter_empty_conv)
  have len2: "4 < length (checkbox_change 2 2 False five_blocks)" by (simp add: five_blocks_def)
  have wc: "(1 :: nat) \<le> 2 \<and> int 2 \<le> c_workerCount individual_config"
    by (simp add: individual_config_def)
  from worker_rows_follow_checkboxes [OF eq2] len2 wc
  have again: "\<exists>r\<in>set rs2. opNumeric r = Suc 4 \<and> workerIndex r = 2" by blast
  from vals none again show ?thesis unfolding eq eq2 by simp
qed

text \<open>
  The claim C5 as stated fails: worker 2 is unchecked on operation 3 of five, which
  unchecks operations 4 and 5, and is then checked again on operation 5; the run has a
  row of worker 2 for operation 5.
\<close>

theorem worker_exclusion_counterexample:
  "map (\<lambda>r. (opNumeric r, workerIndex r))
       (fst (run_ops individual_config 0 (mkDate 0 8 0 0)
              (checkbox_change 4 2 True (checkbox_change 2 2 False five_blocks))))
     = [(1, 1), (1, 2), (2, 1), (2, 2), (3, 1), (4, 1), (5, 1), (5, 2)]"
  by code_simp

section \<open>Chain mode\<close>

lemma time_fields_roundtrip:
  "mkDate (date_field t) (fst (time_field t)) (fst (snd (time_field t))) (snd (snd (time_field t)))
     = t - t mod 1000"
proof -
  define ms where "ms = t mod 86400000"
  define h where "h = ms div 3600000"
  define m where "m = (ms mod 3600000) div 60000"
  define s where "s = (ms mod 60000) div 1000"
  have d1: "(60000::int) dvd 3600000" by (rule dvdI [where k = 60]) simp
  have d2: "(1000::int) dvd 60000" by (rule dvdI [where k = 60]) simp
  have d3: "(1000::int) dvd 86400000" by (rule dvdI [where k = 86400]) simp
  have 1: "(t div 86400000) * 86400000 + ms = t"
    unfolding ms_def by (rule div_mult_mod_eq)
  have 2: "h * 3600000 + ms mod 3600000 = ms"
    unfolding h_def by (rule div_mult_mod_eq)
  have 3: "m * 60000 + ms mod 60000 = ms mod 3600000"
    using div_mult_mod_eq [of "ms mod 3600000" 60000]
    unfolding m_def mod_mod_cancel [OF d1] .
  have 4: "s * 1000 + ms mod 1000 = ms mod 60000"
    using div_mult_mod_eq [of "ms mod 60000" 1000]
    unfolding s_def mod_mod_cancel [OF d2] .
  have 5: "ms mod 1000 = t mod 1000"
    unfolding ms_def by (rule mod_mod_cancel [OF d3])
  have "0 \<le> ms" unfolding ms_def by (rule pos_mod_sign) simp
  then have n1: "0 \<le> h" unfolding h_def by (simp only: pos_imp_zdiv_nonneg_iff [of 3600000, simplified])
  have "0 \<le> ms mod 3600000" by (rule pos_mod_sign) simp
  then have n2: "0 \<le> m" unfolding m_def by (simp only: pos_imp_zdiv_nonneg_iff [of 60000, simplified])
  have "0 \<le> ms mod 60000" by (rule pos_mod_sign) simp
  then have n3: "0 \<le> s" unfolding s_def by (simp only: pos_imp_zdiv_nonneg_iff [of 1000, simplified])
  have tf: "time_field t = (nat h, nat m, nat s)"
    unfolding time_field_def Let_def ms_def [symmetric] h_def m_def s_def ..
  have e: "mkDate (date_field t) (fst (time_field t)) (fst (snd (time_field t)))
       (snd (snd (time_field t)))
     = (t div 86400000) * 86400000 + h * 3600000 + m * 60000 + s * 1000"
    unfolding tf mkDate_def date_field_def fst_conv snd_conv
    using n1 n2 n3 by (simp only: int_nat_eq if_True)
  show ?thesis unfolding e using 1 2 3 4 5 by linarith
qed

lemma run_start_set_start: "run_start (set_start t f) = Some (t - t mod 1000)"
proof -
  obtain h m s where hms: "time_field t = (h, m, s)" by (metis prod_cases3)
  with time_fields_roundtrip [of t] show ?thesis
    by (simp add: run_start_def set_start_def)
qed

lemma op_rows_nonempty:
  "op_rows c i b st \<noteq> [] \<longleftrightarrow> (\<exists>w. 1 \<le> w \<and> int w \<le> c_workerCount c \<and> \<not> skipped b w)"
proof -
  have "op_rows c i b st \<noteq> [] \<longleftrightarrow> (\<exists>w. \<exists>r\<in>set (op_rows c i b st). workerIndex r = w)"
    by (cases "op_rows c i b st") auto
  then show ?thesis by (simp only: op_rows_worker)
qed

lemma run_ops_last:
  "run_ops c i g bs = (rs, sts, g') \<Longrightarrow> bs \<noteq> [] \<Longrightarrow>
     sts \<noteq> [] \<and> g' = opEnd (last sts)
   \<and> ((\<exists>w. 1 \<le> w \<and> int w \<le> c_workerCount c \<and> \<not> skipped (last bs) w)
        \<longrightarrow> rs \<noteq> [] \<and> endObj (last rs) = g')"
proof (induction bs arbitrary: i g rs sts g')
  case Nil
  then show ?case by simp
next
  case (Cons b bs)
  define st where "st = schedule_op c g b"
  obtain rs1 sts1 g1 where r1: "run_ops c (Suc i) (opEnd st) bs = (rs1, sts1, g1)"
    by (metis prod_cases3)
  from Cons.prems have eqs: "rs = op_rows c i b st @ rs1" "sts = st # sts1" "g' = g1"
    by (simp_all add: st_def [symmetric] r1 Let_def)
  show ?case
  proof (cases "bs = []")
    case True
    with r1 have e: "rs1 = []" "sts1 = []" "g1 = opEnd st" by simp_all
    have "op_rows c i b st \<noteq> [] \<Longrightarrow> endObj (last (op_rows c i b st)) = opEnd st"
      using op_rows_times [of "last (op_rows c i b st)" c i b st] by simp
    then show ?thesis
      unfolding eqs e using True op_rows_nonempty [of c i b st] by auto
  next
    case False
    from Cons.IH [OF r1 False] have
      a: "sts1 \<noteq> []" "g1 = opEnd (last sts1)" and
      b: "(\<exists>w. 1 \<le> w \<and> int w \<le> c_workerCount c \<and> \<not> skipped (last bs) w)
        \<Longrightarrow> rs1 \<noteq> [] \<and> endObj (last rs1) = g1"
      by blast+
    show ?thesis
      unfolding eqs using a b False by auto
  qed
qed


lemma generateTable_run:
  assumes "startD (page_form a) = Some day" and "startT (page_form a) = Some (th, tm, ts)"
    and "ops (page_form a) \<noteq> []"
    and "run_ops (mk_config (page_form a) day (mkDate day th tm ts)) 0 (mkDate day th tm ts)
           (ops (page_form a)) = (rs, sts, g')"
  shows "fst (generateTable a) = None"
    and "tableResult (snd (generateTable a)) = rs"
    and "\<exists>e. historyList (snd (generateTable a)) = e # historyList a \<and> e_rows e = rs"
    and "page_form (snd (generateTable a))
         = (if chainMode (page_form a)
            then set_start (if rs = [] then g' else endObj (last rs)) (page_form a)
            else page_form a)"
  using assms
  by (simp_all add: generateTable_def Let_def updateStartTimeFromHistory_def set_start_def)

text \<open>
  C6, as the code has it. In chain mode the clock after the last operation, which is
  the end of the last operation, is written into the start date and time fields with a
  resolution of one second; when the last operation has a row, the next run, made with
  the fields as they are, starts at that end rounded down to the whole second, and so
  at exactly that end when it falls on a whole second.
\<close>

theorem chain_continuation:
  assumes "startD (page_form a) = Some day" and "startT (page_form a) = Some (th, tm, ts)"
    and "ops (page_form a) \<noteq> []"
    and "chainMode (page_form a)"
    and "run_ops (mk_config (page_form a) day (mkDate day th tm ts)) 0 (mkDate day th tm ts)
           (ops (page_form a)) = (rs, sts, g')"
    and "\<exists>w. 1 \<le> w \<and> int w \<le> validateNumber (workerCountField (page_form a)) 1 10
           \<and> \<not> skipped (last (ops (page_form a))) w"
  shows "fst (generateTable a) = None
   \<and> g' = opEnd (last sts)
   \<and> run_start (page_form (snd (generateTable a))) = Some (g' - g' mod 1000)
   \<and> (g' mod 1000 = 0 \<longrightarrow> run_start (page_form (snd (generateTable a))) = Some g')"
proof -
  have wc: "c_workerCount (mk_config (page_form a) day (mkDate day th tm ts))
      = validateNumber (workerCountField (page_form a)) 1 10"
    by (simp add: mk_config_def)
  from run_ops_last [OF assms(5) assms(3)] assms(6) have
    g': "g' = opEnd (last sts)" and rs: "rs \<noteq> []" and last: "endObj (last rs) = g'"
    unfolding wc by blast+
  from generateTable_run(4) [OF assms(1,2,3,5)] assms(4) rs last
  have "page_form (snd (generateTable a)) = set_start g' (page_form a)" by simp
  then have start: "run_start (page_form (snd (generateTable a))) = Some (g' - g' mod 1000)"
    by (simp add: run_start_set_start)
  from generateTable_run(1) [OF assms(1,2,3,5)] g' start show ?thesis by simp
qed

theorem chain_continuation_witness:
  "fst (generateTable (page_of (chain_form 120))) = None
   \<and> snd (snd (run_ops (mk_config (chain_form 120) 0 (mkDate 0 8 0 0)) 0 (mkDate 0 8 0 0)
              (ops (chain_form 120)))) = mkDate 0 10 0 0
   \<and> run_start (page_form (snd (generateTable (page_of (chain_form 120))))) = Some (mkDate 0 10 0 0)"
proof -
  obtain rs sts g' where eq:
    "run_ops (mk_config (page_form (page_of (chain_form 120))) 0 (mkDate 0 8 0 0)) 0 (mkDate 0 8 0 0)
       (ops (page_form (page_of (chain_form 120)))) = (rs, sts, g')"
    by (metis prod_cases3)
  have g': "snd (snd (run_ops (mk_config (chain_form 120) 0 (mkDate 0 8 0 0)) 0 (mkDate 0 8 0 0)
              (ops (chain_form 120)))) = mkDate 0 10 0 0"
    by code_simp
  have pf: "page_form (page_of (chain_form 120)) = chain_form 120" by (simp add: page_of_def)
  from g' eq have gv: "g' = mkDate 0 10 0 0" unfolding pf by simp
  have h1: "startD (page_form (page_of (chain_form 120))) = Some 0"
    and h2: "startT (page_form (page_of (chain_form 120))) = Some (8, 0, 0)"
    and h3: "ops (page_form (page_of (chain_form 120))) \<noteq> []"
    and h4: "chainMode (page_form (page_of (chain_form 120)))"
    by (simp_all add: page_of_def chain_form_def)
  have h6: "\<exists>w. 1 \<le> w \<and> int w \<le> validateNumber (workerCountField (page_form (page_of (chain_form 120)))) 1 10
           \<and> \<not> skipped (last (ops (page_form (page_of (chain_form 120))))) w"
    by (rule exI [where x = 1])
      (simp add: page_of_def chain_form_def validateNumber_def skipped_def boundary_op_def)
  have m: "mkDate 0 10 0 0 mod 1000 = 0" by (simp add: mkDate_def)
  from chain_continuation [OF h1 h2 h3 h4 eq h6] gv m g' show ?thesis by simp
qed

text \<open>
  The claim C6 as stated fails when the end of the run is not on a whole second: a
  chained run of one operation of 0.01 minutes from 08:00:00 ends at 08:00:00.600, and
  the next run starts at 08:00:00.000.
\<close>

theorem chain_continuation_counterexample:
  "snd (snd (run_ops (mk_config (chain_form (1 / 100)) 0 (mkDate 0 8 0 0)) 0 (mkDate 0 8 0 0)
              (ops (chain_form (1 / 100))))) = 28800600
   \<and> map endObj (tableResult (snd (generateTable (page_of (chain_form (1 / 100)))))) = [28800600]
   \<and> run_start (page_form (snd (generateTable (page_of (chain_form (1 / 100)))))) = Some 28800000"
  by code_simp

section \<open>Failure semantics\<close>

text \<open>
  C7. A missing start date or start time abandons the run: the result is the rejection,
  the table stays empty, and the form and the history are as before the call. Numeric
  fields never abandon a run: a non-numeric or negative duration or pause counts as 0, a
  non-numeric or too small worker count as 1, a non-numeric or negative lunch duration
  as 0; with a start date, a start time and at least one operation the run completes
  and adds exactly one history entry, whatever the numeric fields hold.
\<close>

theorem failure_semantics:
  "((startD (page_form a) = None \<or> startT (page_form a) = None) \<longrightarrow>
        generateTable a = (Some MissingStart, a\<lparr>tableResult := []\<rparr>))
   \<and> 0 \<le> dur b \<and> (op_duration b = NaN \<longrightarrow> dur b = 0)
   \<and> (\<forall>d. op_duration b = Num d \<and> d < 0 \<longrightarrow> dur b = 0)
   \<and> 0 \<le> opBreakVal b \<and> (op_break_val b = NaN \<longrightarrow> opBreakVal b = 0)
   \<and> (\<forall>d. op_break_val b = Num d \<and> d < 0 \<longrightarrow> opBreakVal b = 0)
   \<and> 1 \<le> validateNumber v 1 10 \<and> validateNumber v 1 10 \<le> 10
   \<and> validateNumber NaN 1 10 = 1 \<and> (\<forall>n. n < 1 \<longrightarrow> validateNumber (Num n) 1 10 = 1)
   \<and> 0 \<le> lunchDurMin f \<and> lunchDurMin f \<le> 480
   \<and> (lunchDurField f = NaN \<longrightarrow> lunchDurMin f = 0)
   \<and> (\<forall>d. lunchDurField f = Num d \<and> d < 0 \<longrightarrow> lunchDurMin f = 0)
   \<and> (startD (page_form a) \<noteq> None \<and> startT (page_form a) \<noteq> None \<and> ops (page_form a) \<noteq> [] \<longrightarrow>
        fst (generateTable a) = None
        \<and> (\<exists>e. historyList (snd (generateTable a)) = e # historyList a))"
proof -
  have missing: "(startD (page_form a) = None \<or> startT (page_form a) = None) \<longrightarrow>
        generateTable a = (Some MissingStart, a\<lparr>tableResult := []\<rparr>)"
    by (auto simp: generateTable_def Let_def split: option.splits)
  have durs: "0 \<le> dur b \<and> (op_duration b = NaN \<longrightarrow> dur b = 0)
     \<and> (\<forall>d. op_duration b = Num d \<and> d < 0 \<longrightarrow> dur b = 0)"
    by (simp add: dur_def or_zero_def)
  have pauses: "0 \<le> opBreakVal b \<and> (op_break_val b = NaN \<longrightarrow> opBreakVal b = 0)
     \<and> (\<forall>d. op_break_val b = Num d \<and> d < 0 \<longrightarrow> opBreakVal b = 0)"
    by (simp add: opBreakVal_def or_zero_def)
  have workers: "1 \<le> validateNumber v 1 10 \<and> validateNumber v 1 10 \<le> 10
     \<and> validateNumber NaN 1 10 = 1 \<and> (\<forall>n. n < 1 \<longrightarrow> validateNumber (Num n) 1 10 = 1)"
    by (simp add: validateNumber_def split: parsed.splits)
  have lunch: "0 \<le> lunchDurMin f \<and> lunchDurMin f \<le> 480
     \<and> (lunchDurField f = NaN \<longrightarrow> lunchDurMin f = 0)
     \<and> (\<forall>d. lunchDurField f = Num d \<and> d < 0 \<longrightarrow> lunchDurMin f = 0)"
    by (simp add: lunchDurMin_def or_zero_def)
  have completes: "startD (page_form a) \<noteq> None \<and> startT (page_form a) \<noteq> None
        \<and> ops (page_form a) \<noteq> [] \<longrightarrow>
        fst (generateTable a) = None
        \<and> (\<exists>e. historyList (snd (generateTable a)) = e # historyList a)"
  proof (intro impI)
    assume h: "startD (page_form a) \<noteq> None \<and> startT (page_form a) \<noteq> None
        \<and> ops (page_form a) \<noteq> []"
    then obtain day th tm ts where st: "startD (page_form a) = Some day"
      "startT (page_form a) = Some (th, tm, ts)"
      by (metis not_None_eq prod_cases3)
    obtain rs sts g' where eq:
      "run_ops (mk_config (page_form a) day (mkDate day th tm ts)) 0 (mkDate day th tm ts)
           (ops (page_form a)) = (rs, sts, g')"
      by (metis prod_cases3)
    from h have ne: "ops (page_form a) \<noteq> []" by simp
    from generateTable_run(1) [OF st ne eq] generateTable_run(3) [OF st ne eq]
    show "fst (generateTable a) = None
        \<and> (\<exists>e. historyList (snd (generateTable a)) = e # historyList a)"
      by blast
  qed
  from missing durs pauses workers lunch completes show ?thesis by (intro conjI) blast+
qed

theorem failure_semantics_witness:
  "generateTable (page_of ((boundary_form 30)\<lparr>startT := None\<rparr>))
      = (Some MissingStart, page_of ((boundary_form 30)\<lparr>startT := None\<rparr>))
   \<and> dur ((boundary_op 30)\<lparr>op_duration := NaN\<rparr>) = 0
   \<and> dur (boundary_op (- 5)) = 0
   \<and> validateNumber (Num (- 3)) 1 10 = 1
   \<and> lunchDurMin ((boundary_form 30)\<lparr>lunchDurField := Num (- 1)\<rparr>) = 0
   \<and> fst (generateTable (page_of
        ((boundary_form 30)\<lparr>workerCountField := NaN, lunchDurField := NaN,
                             ops := [(boundary_op (- 5))\<lparr>op_break_val := NaN\<rparr>]\<rparr>))) = None"
proof -
  have m: "startT (page_form (page_of ((boundary_form 30)\<lparr>startT := None\<rparr>))) = None"
    by (simp add: page_of_def)
  have p: "(page_of ((boundary_form 30)\<lparr>startT := None\<rparr>))\<lparr>tableResult := []\<rparr>
      = page_of ((boundary_form 30)\<lparr>startT := None\<rparr>)"
    by (simp add: page_of_def)
  have d1: "op_duration ((boundary_op 30)\<lparr>op_duration := NaN\<rparr>) = NaN" by simp
  have d2: "op_duration (boundary_op (- 5)) = Num (- 5)" by (simp add: boundary_op_def)
  have l: "lunchDurField ((boundary_form 30)\<lparr>lunchDurField := Num (- 1)\<rparr>) = Num (- 1)" by simp
  have c: "startD (page_form (page_of
        ((boundary_form 30)\<lparr>workerCountField := NaN, lunchDurField := NaN,
                             ops := [(boundary_op (- 5))\<lparr>op_break_val := NaN\<rparr>]\<rparr>))) \<noteq> None
     \<and> startT (page_form (page_of
        ((boundary_form 30)\<lparr>workerCountField := NaN, lunchDurField := NaN,
                             ops := [(boundary_op (- 5))\<lparr>op_break_val := NaN\<rparr>]\<rparr>))) \<noteq> None
     \<and> ops (page_form (page_of
        ((boundary_form 30)\<lparr>workerCountField := NaN, lunchDurField := NaN,
                             ops := [(boundary_op (- 5))\<lparr>op_break_val := NaN\<rparr>]\<rparr>))) \<noteq> []"
    by (simp add: page_of_def boundary_form_def)
  from failure_semantics [of "page_of ((boundary_form 30)\<lparr>startT := None\<rparr>)"
      "(boundary_op 30)\<lparr>op_duration := NaN\<rparr>" "Num (- 3)"
      "(boundary_form 30)\<lparr>lunchDurField := Num (- 1)\<rparr>"]
    failure_semantics [of "page_of
        ((boundary_form 30)\<lparr>workerCountField := NaN, lunchDurField := NaN,
                             ops := [(boundary_op (- 5))\<lparr>op_break_val := NaN\<rparr>]\<rparr>)"
      "boundary_op (- 5)" "Num (- 3)" "(boundary_form 30)\<lparr>lunchDurField := Num (- 1)\<rparr>"]
    m p d1 d2 l c
  show ?thesis by simp
qed


section \<open>Formulas against the scheduler\<close>

text \<open>Times of one day as fractions: \<open>rel day x\<close> is the cell value of the instant \<open>x\<close> of day \<open>day\<close>.\<close>

lemma tod_rel:
  assumes "day * 86400000 \<le> x" and "x < (day + 1) * 86400000"
  shows "tod x = of_int (x - day * 86400000) / 86400000"
proof -
  have "(x - day * 86400000) mod 86400000 = (x + (- day) * 86400000) mod 86400000"
    by simp
  also have "\<dots> = x mod 86400000"
    by (rule mod_mult_self1)
  finally have "x mod 86400000 = (x - day * 86400000) mod 86400000" by simp
  also have "\<dots> = x - day * 86400000"
    using assms by (intro mod_pos_pos_trivial) simp_all
  finally show ?thesis by (simp add: tod_def)
qed

lemma frac_rel:
  assumes "day * 86400000 \<le> x" and "x < (day + 1) * 86400000"
  shows "frac (of_int (x - day * 86400000) / 86400000 :: rat) = of_int (x - day * 86400000) / 86400000"
proof -
  have "0 \<le> (of_int (x - day * 86400000) :: rat)" using assms by simp
  moreover have "(of_int (x - day * 86400000) :: rat) < 86400000"
  proof -
    have "x - day * 86400000 < 86400000" using assms by simp
    then have "(of_int (x - day * 86400000) :: rat) < of_int 86400000" by (simp only: of_int_less_iff)
    then show ?thesis by simp
  qed
  ultimately show ?thesis by (simp add: frac_eq)
qed

lemma rel_less: "(of_int a / 86400000 :: rat) < of_int b / 86400000 \<longleftrightarrow> a < b"
  by (simp add: divide_less_cancel)

lemma rel_le: "(of_int a / 86400000 :: rat) \<le> of_int b / 86400000 \<longleftrightarrow> a \<le> b"
  by (simp add: divide_le_cancel)

lemma rel_add: "(of_int a / 86400000 :: rat) + of_int b / 86400000 = of_int (a + b) / 86400000"
  by (simp add: add_divide_distrib)

lemma rel_diff: "(of_int a / 86400000 :: rat) - of_int b / 86400000 = of_int (a - b) / 86400000"
  by (simp add: diff_divide_distrib)

lemma rel_abs: "\<bar>of_int a / 86400000 :: rat\<bar> = of_int \<bar>a\<bar> / 86400000"
  by simp

lemma eval_TIME_hm:
  assumes "h < 24" and "m < 60"
  shows "eval env lk (XTime (of_nat h) (of_nat m) 0)
     = of_int (int h * 3600000 + int m * 60000) / 86400000"
proof -
  have "int h * 3600 + int m * 60 < 86400" using assms by simp
  then have "(of_int (int h * 3600 + int m * 60) :: rat) < of_int 86400"
    by (simp only: of_int_less_iff)
  then have lt: "(of_nat h * 3600 + of_nat m * 60 :: rat) < 86400" by simp
  have ge: "0 \<le> (of_nat h * 3600 + of_nat m * 60 :: rat)" by simp
  have "frac ((of_nat h * 3600 + of_nat m * 60) / 86400 :: rat)
      = (of_nat h * 3600 + of_nat m * 60) / 86400"
    using lt ge by (simp add: frac_eq)
  then show ?thesis by simp
qed

lemma eval_TIME_min:
  assumes "ld \<le> 480"
  shows "eval env lk (XTime 0 (of_nat ld) 0) = of_int (int ld * 60000) / 86400000"
proof -
  have "int ld * 60 < 86400" using assms by simp
  then have "(of_int (int ld * 60) :: rat) < of_int 86400" by (simp only: of_int_less_iff)
  then have lt: "(of_nat ld * 60 :: rat) < 86400" by simp
  have "frac ((of_nat ld * 60) / 86400 :: rat) = (of_nat ld * 60) / 86400"
    using lt by (simp add: frac_eq)
  then show ?thesis by simp
qed

lemma eval_TIME_sec: "eval env lk (XTime 0 0 1) = of_int 1000 / 86400000"
  by (simp add: frac_eq)

lemma schedule_op_single_lunch:
  assumes l1: "c_lunch1 c = (L, E)" and l2: "c_lunch2 c = (s2, e2)"
    and le: "L \<le> E" "s2 \<le> e2" "L \<le> s2"
    and tm: "c_timeMode c \<noteq> ''individual''"
    and dms: "durationMsForCalc (c_timeMode c) (c_workerCount c) b = of_int dms"
    and pms: "origOpBreakMs b = pms"
    and bound: "opEnd (schedule_op c g b) < s2"
  shows "schedule_op c g b =
     \<lparr>opStart = (if L \<le> g + pms \<and> g + pms < E then E else g + pms),
      opEnd = (if L \<le> g + pms \<and> g + pms < E then E else g + pms) + dms
               + (if g + pms < L \<and> L < g + pms + dms then E - L else 0),
      crossedLunch = ((L \<le> g + pms \<and> g + pms < E) \<or> (g + pms < L \<and> L < g + pms + dms))\<rparr>"
proof -
  define d where "d = durationMsForCalc (c_timeMode c) (c_workerCount c) b"
  have d: "d = of_int dms" unfolding d_def by (rule dms)
  have "0 \<le> d" unfolding d_def by (rule durationMsForCalc_nonneg)
  then have dms0: "0 \<le> dms" unfolding d by simp
  have nd: "\<And>x. newDate (of_int x + d) = x + dms"
  proof -
    fix x
    have "of_int x + d = (of_int (x + dms) :: rat)" unfolding d by simp
    then show "newDate (of_int x + d) = x + dms" by (simp only: newDate_of_int)
  qed
  define st0 where "st0 = \<lparr>opStart = g + pms, opEnd = g + pms + dms, crossedLunch = False\<rparr>"
  define st1 where "st1 = lunch_step d (L, E) st0"
  have st1: "st1 = \<lparr>opStart = (if L \<le> g + pms \<and> g + pms < E then E else g + pms),
      opEnd = (if L \<le> g + pms \<and> g + pms < E then E else g + pms) + dms
               + (if g + pms < L \<and> L < g + pms + dms then E - L else 0),
      crossedLunch = ((L \<le> g + pms \<and> g + pms < E) \<or> (g + pms < L \<and> L < g + pms + dms))\<rparr>"
    unfolding st1_def st0_def using le(1) by (auto simp: lunch_step_def Let_def nd)
  have eq: "schedule_op c g b = lunch_step d (s2, e2) st1"
    using le(3) tm
    by (simp add: schedule_op_def apply_lunches_def sort_lunches_def l1 l2 Let_def
        opBreakMsForCalc_def pms d_def [symmetric] nd st1_def st0_def)
  have se: "opStart st1 \<le> opEnd st1" unfolding st1 using dms0 le(1) by auto
  have b2: "opEnd (lunch_step d (s2, e2) st1) < s2" using bound unfolding eq .
  have e2: "e2 \<le> newDate (of_int e2 + d)" unfolding nd using dms0 by simp
  have "lunch_step d (s2, e2) st1 = st1"
  proof (cases "s2 \<le> opStart st1 \<and> opStart st1 < e2")
    case True
    then have "opEnd (lunch_step d (s2, e2) st1) = newDate (of_int e2 + d)"
      by (auto simp: lunch_step_def Let_def)
    with b2 e2 le(2) show ?thesis by linarith
  next
    case A: False
    show ?thesis
    proof (cases "opStart st1 < s2 \<and> s2 < opEnd st1")
      case True
      with A have "opEnd (lunch_step d (s2, e2) st1) = opEnd st1 + (e2 - s2)"
        by (auto simp: lunch_step_def Let_def)
      with b2 True le(2) show ?thesis by linarith
    next
      case False
      with A show ?thesis by (auto simp: lunch_step_def Let_def)
    qed
  qed
  with eq st1 show ?thesis by simp
qed

lemma eval_lunchShift_single:
  assumes "\<not> hasLunch2 lc"
  shows "eval env lk (lunchShiftFormula lc raw)
     = frac (if eval env lk (l1Val lc) \<le> eval env lk raw \<and> eval env lk raw < eval env lk (l1End lc)
             then eval env lk (l1End lc) else eval env lk raw)"
  using assms by (simp add: lunchShiftFormula_def Let_def)

lemma eval_formulaEnd_single:
  assumes "\<not> hasLunch2 lc"
  shows "eval env lk (formulaEnd lc u)
     = frac (env 0 (- 2) + env 0 (- 7) / unitDiv u
         + (if env 0 (- 2) < eval env lk (l1Val lc)
              \<and> eval env lk (l1Val lc) + eval env lk (XTime 0 0 1) < env 0 (- 2) + env 0 (- 7) / unitDiv u
            then eval env lk (lDurVal lc) else 0))"
  using assms by (simp add: formulaEnd_def Let_def del: eval.simps(2))

lemma evalb_formulaIcon_single:
  assumes "\<not> hasLunch2 lc"
  shows "evalb env lk (formulaIcon lc u)
     = (\<bar>env 0 7 - eval env lk (l1End lc)\<bar> < eval env lk (XTime 0 0 1)
        \<or> (env 0 7 < eval env lk (l1Val lc)
            \<and> eval env lk (l1Val lc) + eval env lk (XTime 0 0 1) < env 0 7 + env 0 2 / unitDiv u))"
  using assms by (simp add: formulaIcon_def Let_def del: eval.simps(2))

lemma displayDur_cell:
  "displayDurVal tm wc b / unitDiv (unit_of b) = durationMsForCalc tm wc b / 86400000 \<or> tm = ''individual''"
  by (simp add: displayDurVal_def durationMsForCalc_def origDurationMs_def unitDiv_def Let_def)

lemma formulas_one_row:
  fixes f :: form and day g0 g dms pms :: int and b :: op_block and ld :: nat
  assumes hm: "fst (lunch_hm f) < 24" "snd (lunch_hm f) < 60"
    and one: "lunch2_hm f = (0, 0)"
    and ld: "lunchDurMin f = of_nat ld" "1 \<le> ld"
    and tm: "timeMode f \<noteq> ''individual''"
    and dms: "durationMsForCalc (timeMode f) (validateNumber (workerCountField f) 1 10) b = of_int dms"
    and pms: "opBreakSec b * 1000 = of_int pms"
    and g0: "mkDate day 0 0 0 < g0"
    and g: "mkDate day 0 0 0 \<le> g"
    and bound: "opEnd (schedule_op (mk_config f day g0) g b) < mkDate (day + 1) 0 0 0"
    and L: "L = mkDate day (fst (lunch_hm f)) (snd (lunch_hm f)) 0"
    and E: "E = L + int ld * 60000"
  shows "schedule_op (mk_config f day g0) g b =
     \<lparr>opStart = (if L \<le> g + pms \<and> g + pms < E then E else g + pms),
      opEnd = (if L \<le> g + pms \<and> g + pms < E then E else g + pms) + dms
               + (if g + pms < L \<and> L < g + pms + dms then E - L else 0),
      crossedLunch = ((L \<le> g + pms \<and> g + pms < E) \<or> (g + pms < L \<and> L < g + pms + dms))\<rparr>"
    and "0 \<le> dms" and "0 \<le> pms" and "c_lunch1 (mk_config f day g0) = (L, E)"
    and "L < mkDate (day + 1) 0 0 0" and "mkDate day 0 0 0 \<le> L" and "ld \<le> 480"
proof -
  define c where "c = mk_config f day g0"
  have ld480: "ld \<le> 480"
  proof -
    from lunchDurMin_range [of f] have "(of_nat ld :: rat) \<le> of_nat 480" unfolding ld(1) by simp
    then show ?thesis by (simp only: of_nat_le_iff)
  qed
  have "of_int L + lunchDurMin f * 60000 = (of_int (L + int ld * 60000) :: rat)"
    unfolding ld(1) by simp
  then have nd: "newDate (of_int L + lunchDurMin f * 60000) = E"
    unfolding E by (simp only: newDate_of_int)
  have l1: "c_lunch1 c = (L, E)"
    unfolding c_def mk_config_def lunchWindow_def Let_def L [symmetric] nd by simp
  obtain e2 where l2: "c_lunch2 c = (mkDate (day + 1) 0 0 0, e2)"
    using g0 unfolding c_def mk_config_def lunch2Window_def Let_def one
    by (simp add: mkDate_def)
  from mk_config_windows [of f day g0] have wf2: "mkDate (day + 1) 0 0 0 \<le> e2"
    unfolding wf_windows_def c_def [symmetric] l2 by simp
  have LE: "L \<le> E" unfolding E by simp
  have Ls2: "L < mkDate (day + 1) 0 0 0" and L0: "mkDate day 0 0 0 \<le> L"
    using hm unfolding L mkDate_def by simp_all
  have ctm: "c_timeMode c = timeMode f"
    and cwc: "c_workerCount c = validateNumber (workerCountField f) 1 10"
    by (simp_all add: c_def mk_config_def)
  have tm': "c_timeMode c \<noteq> ''individual''" unfolding ctm by (rule tm)
  have dms': "durationMsForCalc (c_timeMode c) (c_workerCount c) b = of_int dms"
    unfolding ctm cwc by (rule dms)
  have pms': "origOpBreakMs b = pms" unfolding origOpBreakMs_def pms by simp
  from durationMsForCalc_nonneg [of "timeMode f" "validateNumber (workerCountField f) 1 10" b]
  show dms0: "0 \<le> dms" unfolding dms by simp
  from opBreakMsForCalc_nonneg [of "timeMode f" b] tm
  show pms0: "0 \<le> pms" by (simp add: opBreakMsForCalc_def pms')
  from Ls2 have Ls2': "L \<le> mkDate (day + 1) 0 0 0" by simp
  from schedule_op_single_lunch [OF l1 l2 LE wf2 Ls2' tm' dms' pms' bound [folded c_def]]
  show "schedule_op (mk_config f day g0) g b =
     \<lparr>opStart = (if L \<le> g + pms \<and> g + pms < E then E else g + pms),
      opEnd = (if L \<le> g + pms \<and> g + pms < E then E else g + pms) + dms
               + (if g + pms < L \<and> L < g + pms + dms then E - L else 0),
      crossedLunch = ((L \<le> g + pms \<and> g + pms < E) \<or> (g + pms < L \<and> L < g + pms + dms))\<rparr>"
    unfolding c_def .
  show "c_lunch1 (mk_config f day g0) = (L, E)" using l1 unfolding c_def .
  show "L < mkDate (day + 1) 0 0 0" by (rule Ls2)
  show "mkDate day 0 0 0 \<le> L" by (rule L0)
  show "ld \<le> 480" by (rule ld480)
qed

lemma formulas_one_row_eval:
  fixes f :: form and day g0 g dms pms :: int and b :: op_block and ld :: nat
  assumes hm: "fst (lunch_hm f) < 24" "snd (lunch_hm f) < 60"
    and one: "lunch2_hm f = (0, 0)"
    and ld: "lunchDurMin f = of_nat ld" "1 \<le> ld"
    and tm: "timeMode f \<noteq> ''individual''"
    and dms: "durationMsForCalc (timeMode f) (validateNumber (workerCountField f) 1 10) b = of_int dms"
    and pms: "opBreakSec b * 1000 = of_int pms"
    and g0: "mkDate day 0 0 0 < g0"
    and g: "mkDate day 0 0 0 \<le> g"
    and bound: "opEnd (schedule_op (mk_config f day g0) g b) < mkDate (day + 1) 0 0 0"
    and L: "L = mkDate day (fst (lunch_hm f)) (snd (lunch_hm f)) 0"
    and tol_end: "\<not> (opStart (schedule_op (mk_config f day g0) g b) < L
           \<and> L < opStart (schedule_op (mk_config f day g0) g b) + dms
           \<and> opStart (schedule_op (mk_config f day g0) g b) + dms \<le> L + 1000)"
    and tol_icon: "\<not> (L + int ld * 60000 \<le> g + pms \<and> g + pms < L + int ld * 60000 + 1000)"
  shows "eval (start_env (tod g) (opBreakSec b / 86400)) no_lookup
           (lunchShiftFormula (lunchConfig f) (XAdd (XRef dr 2) (XRef 0 (- 6))))
         = tod (opStart (schedule_op (mk_config f day g0) g b))"
    and "eval (end_env (tod (opStart (schedule_op (mk_config f day g0) g b)))
                 (displayDurVal (timeMode f) (validateNumber (workerCountField f) 1 10) b))
           no_lookup (formulaEnd (lunchConfig f) (unit_of b))
         = tod (opEnd (schedule_op (mk_config f day g0) g b))"
    and "evalb (icon_env (tod (opStart (schedule_op (mk_config f day g0) g b)))
                  (displayDurVal (timeMode f) (validateNumber (workerCountField f) 1 10) b))
           no_lookup (formulaIcon (lunchConfig f) (unit_of b))
         = crossedLunch (schedule_op (mk_config f day g0) g b)"
proof -
  define E where "E = L + int ld * 60000"
  define st where "st = schedule_op (mk_config f day g0) g b"
  define s0 where "s0 = g + pms"
  define s1 where "s1 = (if L \<le> s0 \<and> s0 < E then E else s0)"
  define cross where "cross = (s0 < L \<and> L < s0 + dms)"
  define e where "e = s1 + dms + (if cross then E - L else 0)"
  define D0 where "D0 = day * 86400000"
  define rel where "rel x = (of_int (x - D0) :: rat) / 86400000" for x
  note row = formulas_one_row [OF hm one ld tm dms pms g0 g bound L E_def]
  have st: "st = \<lparr>opStart = s1, opEnd = e, crossedLunch = ((L \<le> s0 \<and> s0 < E) \<or> cross)\<rparr>"
    unfolding st_def row(1) s1_def e_def cross_def s0_def by simp
  have st_s: "opStart st = s1" and st_e: "opEnd st = e"
    and st_c: "crossedLunch st = ((L \<le> s0 \<and> s0 < E) \<or> cross)"
    unfolding st by simp_all
  have dms0: "0 \<le> dms" and pms0: "0 \<le> pms" by (rule row(2), rule row(3))
  have ld480: "ld \<le> 480" by (rule row(7))
  have D0: "mkDate day 0 0 0 = D0" "mkDate (day + 1) 0 0 0 = D0 + 86400000"
    by (simp_all add: mkDate_def D0_def)
  have LE: "L + 60000 \<le> E" unfolding E_def using ld(2) by simp
  have gD: "D0 \<le> g" using g unfolding D0 .
  have eD: "e < D0 + 86400000" using bound unfolding st_def [symmetric] st_e D0 .
  have s0s1: "s0 \<le> s1" unfolding s1_def by simp
  have s1e: "s1 \<le> e" unfolding e_def using dms0 LE by simp
  have gs0: "g \<le> s0" unfolding s0_def using pms0 by simp
  have in_day: "\<And>x. D0 \<le> x \<Longrightarrow> x < D0 + 86400000 \<Longrightarrow> tod x = rel x \<and> frac (rel x) = rel x"
  proof -
    fix x assume a: "D0 \<le> x" "x < D0 + 86400000"
    then have a': "day * 86400000 \<le> x" "x < (day + 1) * 86400000"
      unfolding D0_def by (simp_all add: algebra_simps)
    from tod_rel [OF a'] frac_rel [OF a'] show "tod x = rel x \<and> frac (rel x) = rel x"
      unfolding rel_def D0_def by simp
  qed
  have tg: "tod g = rel g" using in_day [of g] gD gs0 s0s1 s1e eD by simp
  have ts1: "tod s1 = rel s1" and fs1: "frac (rel s1) = rel s1"
    using in_day [of s1] gD gs0 s0s1 s1e eD by simp_all
  have te: "tod e = rel e" and fe: "frac (rel e) = rel e"
    using in_day [of e] gD gs0 s0s1 s1e eD by simp_all
  have r_less: "\<And>x y. rel x < rel y \<longleftrightarrow> x < y"
    unfolding rel_def by (simp add: rel_less)
  have r_le: "\<And>x y. rel x \<le> rel y \<longleftrightarrow> x \<le> y"
    unfolding rel_def by (simp add: rel_le)
  have r_add: "\<And>x y. rel x + of_int y / 86400000 = rel (x + y)"
    unfolding rel_def by (simp add: rel_add)
  have r_abs: "\<And>x y. \<bar>rel x - rel y\<bar> < of_int 1000 / 86400000 \<longleftrightarrow> \<bar>x - y\<bar> < 1000"
  proof -
    fix x y
    have "(x - D0) - (y - D0) = x - y" by simp
    then have "rel x - rel y = of_int (x - y) / 86400000"
      unfolding rel_def rel_diff by (simp only:)
    then have "\<bar>rel x - rel y\<bar> = of_int \<bar>x - y\<bar> / 86400000" by (simp only: rel_abs)
    then show "\<bar>rel x - rel y\<bar> < of_int 1000 / 86400000 \<longleftrightarrow> \<bar>x - y\<bar> < 1000"
      by (simp only: rel_less)
  qed
  have nh: "\<not> hasLunch2 (lunchConfig f)"
    by (simp add: hasLunch2_def lunchConfig_def one)
  have relL: "rel L = of_int (int (fst (lunch_hm f)) * 3600000 + int (snd (lunch_hm f)) * 60000) / 86400000"
    unfolding rel_def L mkDate_def D0_def by simp
  have vL: "\<And>env lk. eval env lk (l1Val (lunchConfig f)) = rel L"
    unfolding relL l1Val_def lunchConfig_def lunch_config.simps by (rule eval_TIME_hm [OF hm])
  have ldof: "ld_of (lunchConfig f) = of_nat ld"
    using ld by (simp add: ld_of_def lunchConfig_def)
  have EL: "E - L = int ld * 60000" unfolding E_def by simp
  have vD: "\<And>env lk. eval env lk (lDurVal (lunchConfig f)) = of_int (E - L) / 86400000"
    unfolding lDurVal_def ldof EL by (rule eval_TIME_min [OF ld480])
  have vE: "\<And>env lk. eval env lk (l1End (lunchConfig f)) = rel E"
  proof -
    fix env lk
    have "eval env lk (l1End (lunchConfig f))
        = eval env lk (l1Val (lunchConfig f)) + eval env lk (lDurVal (lunchConfig f))"
      unfolding l1End_def l1Val_def lDurVal_def by (simp only: eval.simps)
    also have "\<dots> = rel L + of_int (E - L) / 86400000" unfolding vL vD ..
    also have "\<dots> = rel (L + (E - L))" by (rule r_add)
    finally show "eval env lk (l1End (lunchConfig f)) = rel E" by simp
  qed
  have v1: "\<And>env lk. eval env lk (XTime 0 0 1) = of_int 1000 / 86400000"
    by (rule eval_TIME_sec)
  have pause: "opBreakSec b / 86400 = of_int pms / 86400000"
  proof -
    have "opBreakSec b = of_int pms / 1000" using pms by (simp add: field_simps)
    then show ?thesis by simp
  qed
  have durc: "displayDurVal (timeMode f) (validateNumber (workerCountField f) 1 10) b / unitDiv (unit_of b)
      = of_int dms / 86400000"
    using displayDur_cell [of "timeMode f" "validateNumber (workerCountField f) 1 10" b] tm
    unfolding dms by simp
  \<comment> \<open>the start formula\<close>
  have raw: "eval (start_env (tod g) (opBreakSec b / 86400)) no_lookup (XAdd (XRef dr 2) (XRef 0 (- 6)))
      = rel s0"
    unfolding s0_def r_add [symmetric] tg [symmetric] pause [symmetric]
    by (simp add: start_env_def)
  have "eval (start_env (tod g) (opBreakSec b / 86400)) no_lookup
           (lunchShiftFormula (lunchConfig f) (XAdd (XRef dr 2) (XRef 0 (- 6))))
      = frac (if rel L \<le> rel s0 \<and> rel s0 < rel E then rel E else rel s0)"
    unfolding eval_lunchShift_single [OF nh] raw vL vE ..
  also have "\<dots> = frac (rel s1)" unfolding r_le r_less s1_def by simp
  also have "\<dots> = tod s1" unfolding fs1 ts1 ..
  finally show "eval (start_env (tod g) (opBreakSec b / 86400)) no_lookup
           (lunchShiftFormula (lunchConfig f) (XAdd (XRef dr 2) (XRef 0 (- 6))))
         = tod (opStart (schedule_op (mk_config f day g0) g b))"
    unfolding st_def [symmetric] st_s .
  \<comment> \<open>the tolerance of one second\<close>
  have tol: "\<not> (s1 < L \<and> L < s1 + dms \<and> s1 + dms \<le> L + 1000)"
    using tol_end unfolding st_def [symmetric] st_s .
  have tol2: "\<not> (E \<le> s0 \<and> s0 < E + 1000)"
    using tol_icon unfolding E_def s0_def .
  have key_end: "(s1 < L \<and> L + 1000 < s1 + dms) = cross"
    using tol LE unfolding cross_def s1_def by auto
  have key_icon: "(\<bar>s1 - E\<bar> < 1000 \<or> (s1 < L \<and> L + 1000 < s1 + dms)) = ((L \<le> s0 \<and> s0 < E) \<or> cross)"
    unfolding key_end using tol2 LE unfolding cross_def s1_def by auto
  \<comment> \<open>the end formula\<close>
  have rawEnd: "rel s1 + displayDurVal (timeMode f) (validateNumber (workerCountField f) 1 10) b
        / unitDiv (unit_of b) = rel (s1 + dms)"
    unfolding durc by (rule r_add)
  have L1: "rel L + of_int 1000 / 86400000 = rel (L + 1000)" by (rule r_add)
  have "eval (end_env (tod s1) (displayDurVal (timeMode f) (validateNumber (workerCountField f) 1 10) b))
           no_lookup (formulaEnd (lunchConfig f) (unit_of b))
      = frac (rel (s1 + dms)
          + (if rel s1 < rel L \<and> rel (L + 1000) < rel (s1 + dms) then of_int (E - L) / 86400000 else 0))"
    unfolding eval_formulaEnd_single [OF nh] vL vD v1 L1
    by (simp add: end_env_def ts1 rawEnd)
  also have "\<dots> = frac (rel (s1 + dms) + (if cross then of_int (E - L) / 86400000 else 0))"
    unfolding r_less key_end ..
  also have "\<dots> = frac (rel e)"
  proof (cases cross)
    case True
    then show ?thesis unfolding e_def by (simp only: if_True r_add)
  next
    case False
    then show ?thesis unfolding e_def by simp
  qed
  also have "\<dots> = tod e" unfolding fe te ..
  finally show "eval (end_env (tod (opStart (schedule_op (mk_config f day g0) g b)))
                 (displayDurVal (timeMode f) (validateNumber (workerCountField f) 1 10) b))
           no_lookup (formulaEnd (lunchConfig f) (unit_of b))
         = tod (opEnd (schedule_op (mk_config f day g0) g b))"
    unfolding st_def [symmetric] st_s st_e .
  \<comment> \<open>the icon formula\<close>
  have "evalb (icon_env (tod s1) (displayDurVal (timeMode f) (validateNumber (workerCountField f) 1 10) b))
           no_lookup (formulaIcon (lunchConfig f) (unit_of b))
      = (\<bar>rel s1 - rel E\<bar> < of_int 1000 / 86400000
          \<or> (rel s1 < rel L \<and> rel (L + 1000) < rel (s1 + dms)))"
    unfolding evalb_formulaIcon_single [OF nh] vL vE v1 L1
    by (simp add: icon_env_def ts1 rawEnd)
  also have "\<dots> = ((L \<le> s0 \<and> s0 < E) \<or> cross)"
    unfolding r_abs r_less key_icon ..
  finally show "evalb (icon_env (tod (opStart (schedule_op (mk_config f day g0) g b)))
                  (displayDurVal (timeMode f) (validateNumber (workerCountField f) 1 10) b))
           no_lookup (formulaIcon (lunchConfig f) (unit_of b))
         = crossedLunch (schedule_op (mk_config f day g0) g b)"
    unfolding st_def [symmetric] st_s st_c .
qed

lemma entry_rows_offset:
  assumes "e_rows p \<noteq> []"
  shows "int (fst (entry_rows r (p # d # rest) ! 1)) - (5 + 2 * int (length (e_z7 p)))
     = int (snd (entry_rows r (p # d # rest) ! 0))"
proof -
  from assms have "0 < length (e_rows p)" by simp
  then show ?thesis by (simp add: Let_def)
qed





section \<open>The second lunch window\<close>

lemma schedule_op_over_midnight:
  assumes hm: "fst (lunch_hm f) < 24" "snd (lunch_hm f) < 60"
    and one: "lunch2_hm f = (0, 0)"
    and g: "mkDate day 0 0 0 < g"
    and s: "s = t + opBreakMsForCalc (timeMode f) b"
    and d: "d = durationMsForCalc (timeMode f) (validateNumber (workerCountField f) 1 10) b"
    and after1: "snd (c_lunch1 (mk_config f day g)) \<le> s"
    and before: "s < mkDate (day + 1) 0 0 0"
    and over: "mkDate (day + 1) 0 0 0 < newDate (of_int s + d)"
  shows "schedule_op (mk_config f day g) t b
     = \<lparr>opStart = s,
        opEnd = newDate (of_int s + d)
                 + (snd (c_lunch2 (mk_config f day g)) - mkDate (day + 1) 0 0 0),
        crossedLunch = True\<rparr>"
proof -
  define c where "c = mk_config f day g"
  obtain L E where l1: "c_lunch1 c = (L, E)" by (cases "c_lunch1 c")
  have L: "L = mkDate day (fst (lunch_hm f)) (snd (lunch_hm f)) 0"
    using l1 by (simp add: c_def mk_config_def lunchWindow_def Let_def)
  obtain e2 where l2: "c_lunch2 c = (mkDate (day + 1) 0 0 0, e2)"
    using g unfolding c_def mk_config_def lunch2Window_def Let_def one
    by (simp add: mkDate_def)
  from mk_config_windows [of f day g] have LE: "L \<le> E"
    unfolding wf_windows_def c_def [symmetric] l1 by simp
  have LM: "L < mkDate (day + 1) 0 0 0" using hm unfolding L mkDate_def by simp
  have Es: "E \<le> s" using after1 unfolding c_def [symmetric] l1 by simp
  have ctm: "c_timeMode c = timeMode f"
    and cwc: "c_workerCount c = validateNumber (workerCountField f) 1 10"
    by (simp_all add: c_def mk_config_def)
  define st0 where "st0 = \<lparr>opStart = s, opEnd = newDate (of_int s + d), crossedLunch = False\<rparr>"
  have eq: "schedule_op c t b = lunch_step d (mkDate (day + 1) 0 0 0, e2) (lunch_step d (L, E) st0)"
    using LM
    by (simp add: schedule_op_def apply_lunches_def sort_lunches_def l1 l2 Let_def ctm cwc
        s [symmetric] d [symmetric] st0_def)
  have 1: "lunch_step d (L, E) st0 = st0"
    using LE Es by (simp add: lunch_step_def Let_def st0_def)
  have 2: "lunch_step d (mkDate (day + 1) 0 0 0, e2) st0
      = \<lparr>opStart = s, opEnd = newDate (of_int s + d) + (e2 - mkDate (day + 1) 0 0 0),
         crossedLunch = True\<rparr>"
    using before over by (simp add: lunch_step_def Let_def st0_def)
  show ?thesis unfolding c_def [symmetric] eq 1 2 l2 by simp
qed

lemma times_of_lunchShift_single:
  assumes "\<not> hasLunch2 lc"
  shows "set (times_of (lunchShiftFormula lc raw))
     \<subseteq> {(of_nat (l_h lc), of_nat (l_m lc), 0), (0, ld_of lc, 0)} \<union> set (times_of raw)"
  using assms by (auto simp: lunchShiftFormula_def Let_def l1Val_def l1End_def)

lemma times_of_formulaEnd_single:
  assumes "\<not> hasLunch2 lc"
  shows "set (times_of (formulaEnd lc u))
     \<subseteq> {(of_nat (l_h lc), of_nat (l_m lc), 0), (0, ld_of lc, 0), (0, 0, 1)}"
  using assms by (auto simp: formulaEnd_def Let_def l1Val_def lDurVal_def)

lemma times_of_formulaIcon_single:
  assumes "\<not> hasLunch2 lc"
  shows "set (times_ofb (formulaIcon lc u))
     \<subseteq> {(of_nat (l_h lc), of_nat (l_m lc), 0), (0, ld_of lc, 0), (0, 0, 1)}"
  using assms by (auto simp: formulaIcon_def Let_def l1Val_def l1End_def lDurVal_def)

text \<open>
  C10. With the second lunch field at 00:00 (also when it is empty or malformed) the
  export treats the second window as absent: the start-time, end-time and icon formulas
  are the one-window forms, and their only \<^verbatim>\<open>TIME\<close> literals are the first lunch start,
  the lunch duration and the tolerance of one second. The scheduler still has the window:
  it starts at the midnight of the start day, or at the next midnight when that is
  before the start of the run, and it is processed like the first. An operation that
  starts after the first window and runs over that next midnight gets the lunch flag
  and an end inflated by the length of the window. For the run from 23:30 with one
  operation of 60 minutes the scheduler ends the operation at 01:30 with the flag, while
  the end-time formula gives 00:30 and the icon formula no icon.
\<close>

theorem second_lunch_midnight_sentinel:
  assumes "lunch2_hm f = (0, 0)"
  shows "\<not> hasLunch2 (lunchConfig f)
   \<and> lunchShiftFormula (lunchConfig f) raw
       = XMod1 (XIf (XAnd (XGe raw (l1Val (lunchConfig f))) (XLt raw (l1End (lunchConfig f))))
                  (l1End (lunchConfig f)) raw)
   \<and> set (times_of (lunchShiftFormula (lunchConfig f) raw))
       \<subseteq> {(of_nat (fst (lunch_hm f)), of_nat (snd (lunch_hm f)), 0), (0, ld_of (lunchConfig f), 0)}
          \<union> set (times_of raw)
   \<and> set (times_of (formulaEnd (lunchConfig f) u))
       \<subseteq> {(of_nat (fst (lunch_hm f)), of_nat (snd (lunch_hm f)), 0), (0, ld_of (lunchConfig f), 0),
           (0, 0, 1)}
   \<and> set (times_ofb (formulaIcon (lunchConfig f) u))
       \<subseteq> {(of_nat (fst (lunch_hm f)), of_nat (snd (lunch_hm f)), 0), (0, ld_of (lunchConfig f), 0),
           (0, 0, 1)}
   \<and> fst (c_lunch2 (mk_config f day g))
       = (if mkDate day 0 0 0 < g then mkDate (day + 1) 0 0 0 else mkDate day 0 0 0)
   \<and> snd (c_lunch2 (mk_config f day g))
       = newDate (of_int (fst (c_lunch2 (mk_config f day g))) + lunchDurMin f * 60000)
   \<and> (\<forall>t b. fst (lunch_hm f) < 24 \<and> snd (lunch_hm f) < 60 \<and> mkDate day 0 0 0 < g
         \<and> snd (c_lunch1 (mk_config f day g)) \<le> t + opBreakMsForCalc (timeMode f) b
         \<and> t + opBreakMsForCalc (timeMode f) b < mkDate (day + 1) 0 0 0
         \<and> mkDate (day + 1) 0 0 0
             < newDate (of_int (t + opBreakMsForCalc (timeMode f) b)
                 + durationMsForCalc (timeMode f) (validateNumber (workerCountField f) 1 10) b)
        \<longrightarrow> schedule_op (mk_config f day g) t b
            = \<lparr>opStart = t + opBreakMsForCalc (timeMode f) b,
               opEnd = newDate (of_int (t + opBreakMsForCalc (timeMode f) b)
                   + durationMsForCalc (timeMode f) (validateNumber (workerCountField f) 1 10) b)
                 + (snd (c_lunch2 (mk_config f day g)) - mkDate (day + 1) 0 0 0),
               crossedLunch = True\<rparr>)
   \<and> map (\<lambda>r. (startObj r, endObj r, r_crossedLunch r))
         (tableResult (snd (generateTable (page_of night_form))))
       = [(mkDate 0 23 30 0, mkDate 1 1 30 0, True)]
   \<and> eval (end_env (tod (mkDate 0 23 30 0)) 60) no_lookup (formulaEnd (lunchConfig night_form) ''min'')
       = tod (mkDate 1 0 30 0)
   \<and> \<not> evalb (icon_env (tod (mkDate 0 23 30 0)) 60) no_lookup
           (formulaIcon (lunchConfig night_form) ''min'')"
proof -
  have nh: "\<not> hasLunch2 (lunchConfig f)"
    by (simp add: hasLunch2_def lunchConfig_def assms)
  have hmf: "l_h (lunchConfig f) = fst (lunch_hm f)" "l_m (lunchConfig f) = snd (lunch_hm f)"
    by (simp_all add: lunchConfig_def)
  have shift: "lunchShiftFormula (lunchConfig f) raw
       = XMod1 (XIf (XAnd (XGe raw (l1Val (lunchConfig f))) (XLt raw (l1End (lunchConfig f))))
                  (l1End (lunchConfig f)) raw)"
    using nh by (simp add: lunchShiftFormula_def Let_def)
  note t1 = times_of_lunchShift_single [OF nh, of raw, unfolded hmf]
  note t2 = times_of_formulaEnd_single [OF nh, of u, unfolded hmf]
  note t3 = times_of_formulaIcon_single [OF nh, of u, unfolded hmf]
  have w1: "fst (c_lunch2 (mk_config f day g))
       = (if mkDate day 0 0 0 < g then mkDate (day + 1) 0 0 0 else mkDate day 0 0 0)"
    by (simp add: mk_config_def lunch2Window_def Let_def assms mkDate_def)
  have w2: "snd (c_lunch2 (mk_config f day g))
       = newDate (of_int (fst (c_lunch2 (mk_config f day g))) + lunchDurMin f * 60000)"
    by (simp add: mk_config_def lunch2Window_def Let_def)
  have over: "\<forall>t b. fst (lunch_hm f) < 24 \<and> snd (lunch_hm f) < 60 \<and> mkDate day 0 0 0 < g
         \<and> snd (c_lunch1 (mk_config f day g)) \<le> t + opBreakMsForCalc (timeMode f) b
         \<and> t + opBreakMsForCalc (timeMode f) b < mkDate (day + 1) 0 0 0
         \<and> mkDate (day + 1) 0 0 0
             < newDate (of_int (t + opBreakMsForCalc (timeMode f) b)
                 + durationMsForCalc (timeMode f) (validateNumber (workerCountField f) 1 10) b)
        \<longrightarrow> schedule_op (mk_config f day g) t b
            = \<lparr>opStart = t + opBreakMsForCalc (timeMode f) b,
               opEnd = newDate (of_int (t + opBreakMsForCalc (timeMode f) b)
                   + durationMsForCalc (timeMode f) (validateNumber (workerCountField f) 1 10) b)
                 + (snd (c_lunch2 (mk_config f day g)) - mkDate (day + 1) 0 0 0),
               crossedLunch = True\<rparr>"
  proof (intro allI impI)
    fix t b
    assume h: "fst (lunch_hm f) < 24 \<and> snd (lunch_hm f) < 60 \<and> mkDate day 0 0 0 < g
         \<and> snd (c_lunch1 (mk_config f day g)) \<le> t + opBreakMsForCalc (timeMode f) b
         \<and> t + opBreakMsForCalc (timeMode f) b < mkDate (day + 1) 0 0 0
         \<and> mkDate (day + 1) 0 0 0
             < newDate (of_int (t + opBreakMsForCalc (timeMode f) b)
                 + durationMsForCalc (timeMode f) (validateNumber (workerCountField f) 1 10) b)"
    then have h1: "fst (lunch_hm f) < 24" and h2: "snd (lunch_hm f) < 60"
      and h3: "mkDate day 0 0 0 < g"
      and h4: "snd (c_lunch1 (mk_config f day g)) \<le> t + opBreakMsForCalc (timeMode f) b"
      and h5: "t + opBreakMsForCalc (timeMode f) b < mkDate (day + 1) 0 0 0"
      and h6: "mkDate (day + 1) 0 0 0
             < newDate (of_int (t + opBreakMsForCalc (timeMode f) b)
                 + durationMsForCalc (timeMode f) (validateNumber (workerCountField f) 1 10) b)"
      by blast+
    show "schedule_op (mk_config f day g) t b
            = \<lparr>opStart = t + opBreakMsForCalc (timeMode f) b,
               opEnd = newDate (of_int (t + opBreakMsForCalc (timeMode f) b)
                   + durationMsForCalc (timeMode f) (validateNumber (workerCountField f) 1 10) b)
                 + (snd (c_lunch2 (mk_config f day g)) - mkDate (day + 1) 0 0 0),
               crossedLunch = True\<rparr>"
      by (rule schedule_op_over_midnight [OF h1 h2 assms h3 refl refl h4 h5 h6])
  qed
  have n1: "map (\<lambda>r. (startObj r, endObj r, r_crossedLunch r))
         (tableResult (snd (generateTable (page_of night_form))))
       = [(mkDate 0 23 30 0, mkDate 1 1 30 0, True)]"
    by code_simp
  have n2: "eval (end_env (tod (mkDate 0 23 30 0)) 60) no_lookup
         (formulaEnd (lunchConfig night_form) ''min'') = tod (mkDate 1 0 30 0)"
    by code_simp
  have n3: "\<not> evalb (icon_env (tod (mkDate 0 23 30 0)) 60) no_lookup
           (formulaIcon (lunchConfig night_form) ''min'')"
    by code_simp
  from nh shift t1 t2 t3 w1 w2 over n1 n2 n3 show ?thesis by (intro conjI)
qed

theorem second_lunch_midnight_sentinel_witness:
  "\<not> hasLunch2 (lunchConfig night_form)
   \<and> c_lunch2 (mk_config night_form 0 (mkDate 0 23 30 0)) = (mkDate 1 0 0 0, mkDate 1 1 0 0)
   \<and> crossedLunch (schedule_op (mk_config night_form 0 (mkDate 0 23 30 0)) (mkDate 0 23 30 0)
        (boundary_op 60))
   \<and> opEnd (schedule_op (mk_config night_form 0 (mkDate 0 23 30 0)) (mkDate 0 23 30 0)
        (boundary_op 60)) = mkDate 1 1 30 0
   \<and> times_of (formulaEnd (lunchConfig night_form) ''min'')
       = [(12, 0, 0), (12, 0, 0), (0, 0, 1), (0, 60, 0)]"
proof -
  have one: "lunch2_hm night_form = (0, 0)" by (simp add: night_form_def lunch2_hm_def)
  have l2: "c_lunch2 (mk_config night_form 0 (mkDate 0 23 30 0)) = (mkDate 1 0 0 0, mkDate 1 1 0 0)"
    by code_simp
  have hyp: "fst (lunch_hm night_form) < 24 \<and> snd (lunch_hm night_form) < 60
       \<and> mkDate 0 0 0 0 < mkDate 0 23 30 0
       \<and> snd (c_lunch1 (mk_config night_form 0 (mkDate 0 23 30 0)))
           \<le> mkDate 0 23 30 0 + opBreakMsForCalc (timeMode night_form) (boundary_op 60)
       \<and> mkDate 0 23 30 0 + opBreakMsForCalc (timeMode night_form) (boundary_op 60)
           < mkDate (0 + 1) 0 0 0
       \<and> mkDate (0 + 1) 0 0 0
           < newDate (of_int (mkDate 0 23 30 0 + opBreakMsForCalc (timeMode night_form) (boundary_op 60))
               + durationMsForCalc (timeMode night_form)
                   (validateNumber (workerCountField night_form) 1 10) (boundary_op 60))"
    by code_simp
  have en: "opEnd (schedule_op (mk_config night_form 0 (mkDate 0 23 30 0)) (mkDate 0 23 30 0)
        (boundary_op 60)) = mkDate 1 1 30 0"
    by code_simp
  have tms: "times_of (formulaEnd (lunchConfig night_form) ''min'')
       = [(12, 0, 0), (12, 0, 0), (0, 0, 1), (0, 60, 0)]"
    by code_simp
  from second_lunch_midnight_sentinel [OF one, of _ _ 0 "mkDate 0 23 30 0"]
  have nh: "\<not> hasLunch2 (lunchConfig night_form)"
    and imp: "\<forall>t b. fst (lunch_hm night_form) < 24 \<and> snd (lunch_hm night_form) < 60
         \<and> mkDate 0 0 0 0 < mkDate 0 23 30 0
         \<and> snd (c_lunch1 (mk_config night_form 0 (mkDate 0 23 30 0)))
             \<le> t + opBreakMsForCalc (timeMode night_form) b
         \<and> t + opBreakMsForCalc (timeMode night_form) b < mkDate (0 + 1) 0 0 0
         \<and> mkDate (0 + 1) 0 0 0
             < newDate (of_int (t + opBreakMsForCalc (timeMode night_form) b)
                 + durationMsForCalc (timeMode night_form)
                     (validateNumber (workerCountField night_form) 1 10) b)
        \<longrightarrow> schedule_op (mk_config night_form 0 (mkDate 0 23 30 0)) t b
            = \<lparr>opStart = t + opBreakMsForCalc (timeMode night_form) b,
               opEnd = newDate (of_int (t + opBreakMsForCalc (timeMode night_form) b)
                   + durationMsForCalc (timeMode night_form)
                       (validateNumber (workerCountField night_form) 1 10) b)
                 + (snd (c_lunch2 (mk_config night_form 0 (mkDate 0 23 30 0))) - mkDate (0 + 1) 0 0 0),
               crossedLunch = True\<rparr>"
    by blast+
  from imp [rule_format, OF hyp]
  have "crossedLunch (schedule_op (mk_config night_form 0 (mkDate 0 23 30 0)) (mkDate 0 23 30 0)
        (boundary_op 60)) = True"
    by (rule arg_cong [where f = crossedLunch, THEN trans]) simp
  with nh l2 en tms show ?thesis by simp
qed

section \<open>Cell typing and neutralisation\<close>

lemma excelSanitizeCell_cases:
  "excelSanitizeCell s
     = (if s \<noteq> [] \<and> hd s \<in> {CHR ''='', CHR ''+'', CHR ''-'', CHR ''@''} then CHR 0x27 # s else s)"
  by (simp add: excelSanitizeCell_def)



end
